theory Spec2Isabelle
  imports Main
begin

section \<open>The token registry of \<^verbatim>\<open>src/api/tokens/tokens.ts\<close>\<close>

text \<open>
  The module keeps one table per chain (\<^verbatim>\<open>tokensByChain\<close>), built from three
  sources (vaults, boosts, address book) by \<^verbatim>\<open>fetchTokensForChain\<close> and
  published by \<^verbatim>\<open>updateTokens\<close>. The embedding below follows the source function
  by function. What the module imports (the vault and boost listings, the address
  book, \<^verbatim>\<open>isApiChain\<close>, \<^verbatim>\<open>toApiChain\<close>, viem's \<^verbatim>\<open>getAddress\<close>, the keys of
  \<^verbatim>\<open>MULTICHAIN_ENDPOINTS\<close>) is a field of the record \<open>Env\<close>; every theorem holds
  for every such environment unless it says otherwise. \<^verbatim>\<open>toApiChain\<close> is taken as
  total, and \<open>getAddress\<close> returns \<open>None\<close> where viem's function throws.

  Strings are lists of code units below 256; on them \<open>toLowerCase\<close> is JavaScript's
  \<^verbatim>\<open>toLowerCase\<close>. A string with a code unit from 256 on is not a value of the model.

  The two dictionaries of a table are created as \<^verbatim>\<open>{}\<close>, so a read \<^verbatim>\<open>obj[key]\<close> finds
  the object's own properties and the members it inherits from \<^verbatim>\<open>Object.prototype\<close>
  (\<open>jsGet\<close> below). The registry \<^verbatim>\<open>tokensByChain\<close> is read at chain ids only; these are
  values of \<^verbatim>\<open>ApiChain\<close>, none of which names such a member, and the registry is a map.

  Where a record's address key names such a member, the source's assignments (of
  \<^verbatim>\<open>bridge\<close>, \<^verbatim>\<open>oracleId\<close>, \<^verbatim>\<open>symbol\<close>) land on a built-in object and change no table.
  The model does not record them, and it reads a record's fields from the record
  alone: it does not follow what a property written on \<^verbatim>\<open>Object.prototype\<close> itself
  (address key \<^verbatim>\<open>__proto__\<close>) would add to the records that lack the field.
\<close>

subsection \<open>Strings and JavaScript truthiness\<close>

text \<open>The capital letters below 256 are \<^verbatim>\<open>A\<close> to \<^verbatim>\<open>Z\<close> (65 to 90) and the Latin-1 capitals
  192 to 222 without the multiplication sign 215; the small letter is 32 above, which
  sets the bit of weight 32.\<close>

definition toLowerChar :: "char \<Rightarrow> char" where
  "toLowerChar c =
     (let n = (of_char c :: nat)
      in if (65 \<le> n \<and> n \<le> 90) \<or> (192 \<le> n \<and> n \<le> 222 \<and> n \<noteq> 215)
         then (case c of Char b0 b1 b2 b3 b4 b5 b6 b7 \<Rightarrow> Char b0 b1 b2 b3 b4 True b6 b7)
         else c)"

definition toLowerCase :: "string \<Rightarrow> string" where
  "toLowerCase s = map toLowerChar s"

text \<open>An optional string is truthy when it is present and not empty.\<close>

definition truthy :: "string option \<Rightarrow> bool" where
  "truthy s = (case s of None \<Rightarrow> False | Some v \<Rightarrow> v \<noteq> [])"

text \<open>\<^verbatim>\<open>s || d\<close> on an optional string, and on an optional number.\<close>

definition strOr :: "string option \<Rightarrow> string \<Rightarrow> string" where
  "strOr s d = (case s of None \<Rightarrow> d | Some v \<Rightarrow> if v = [] then d else v)"

definition numOr :: "nat option \<Rightarrow> nat \<Rightarrow> nat" where
  "numOr n d = (case n of None \<Rightarrow> d | Some v \<Rightarrow> if v = 0 then d else v)"

subsection \<open>Objects used as dictionaries\<close>

text \<open>The names of the members of \<^verbatim>\<open>Object.prototype\<close>, which every object created as
  \<^verbatim>\<open>{}\<close> inherits. Each of them is a function or an object: not \<^verbatim>\<open>undefined\<close>, and
  truthy.\<close>

definition objectPrototypeKeys :: "string list" where
  "objectPrototypeKeys =
     [''constructor'', ''__defineGetter__'', ''__defineSetter__'', ''hasOwnProperty'',
      ''__lookupGetter__'', ''__lookupSetter__'', ''isPrototypeOf'', ''propertyIsEnumerable'',
      ''toString'', ''valueOf'', ''__proto__'', ''toLocaleString'']"

text \<open>What \<^verbatim>\<open>obj[key]\<close> evaluates to, for an object created as \<^verbatim>\<open>{}\<close> whose own
  properties are the map \<open>obj\<close>: an own value, an inherited member, or
  \<^verbatim>\<open>undefined\<close>.\<close>

datatype 'a property = Undefined | Own 'a | Inherited

definition jsGet :: "(string \<rightharpoonup> 'a) \<Rightarrow> string \<Rightarrow> 'a property" where
  "jsGet obj k =
     (case obj k of
        Some v \<Rightarrow> Own v
      | None \<Rightarrow> if k \<in> set objectPrototypeKeys then Inherited else Undefined)"

text \<open>Truthiness of a read whose own values are strings.\<close>

definition jsTruthy :: "string property \<Rightarrow> bool" where
  "jsTruthy p = (case p of Undefined \<Rightarrow> False | Own v \<Rightarrow> v \<noteq> [] | Inherited \<Rightarrow> True)"

subsection \<open>Data model\<close>

type_synonym ApiChain = string

datatype TokenType = Native | Erc20

record TokenEntity =
  type' :: TokenType
  id' :: string
  symbol :: string
  name :: string
  chainId :: ApiChain
  oracle' :: string
  oracleId :: string
  address :: string
  decimals :: nat
  bridge :: "string option"
  staked :: "bool option"

text \<open>The two dictionaries of a table, by their own properties.\<close>

record ChainTokens =
  byId :: "string \<rightharpoonup> string"
  byAddress :: "string \<rightharpoonup> TokenEntity"

type_synonym TokensByChain = "ApiChain \<rightharpoonup> ChainTokens"

text \<open>The fields of a vault, of a boost reward and of an address-book token that the
  module reads. Fields whose names the token record already uses carry a prefix.\<close>

record Vault =
  token :: string
  tokenAddress :: "string option"
  vaultType :: string
  vaultOracle :: string
  vaultOracleId :: string
  tokenDecimals :: nat
  earnedToken :: string
  earnedTokenAddress :: "string option"
  earnContractAddress :: string
  earnedTokenDecimals :: "nat option"

record Reward =
  rewardType :: string
  rewardAddress :: "string option"
  rewardSymbol :: string
  rewardChainId :: "string option"
  rewardOracleId :: "string option"
  rewardOracle :: "string option"
  rewardDecimals :: "nat option"

record Boost =
  rewards :: "Reward list"

record Token =
  abName :: string
  abSymbol :: string
  abOracle :: "string option"
  abOracleId :: "string option"
  abAddress :: string
  abDecimals :: nat
  abBridge :: "string option"
  abStaked :: "bool option"

text \<open>\<open>tokens\<close> is \<^verbatim>\<open>Object.entries(chainBook.tokens)\<close>: the entries in the order the
  object enumerates them, with pairwise distinct keys. The source's guard against a
  missing \<^verbatim>\<open>tokens\<close> object coincides with its guard against an empty one.\<close>

record ChainBook =
  tokens :: "(string \<times> Token) list"
  nativeSymbol :: string
  nativeOracleId :: string

record Env =
  getVaultsByChain :: "ApiChain \<Rightarrow> Vault list option"
  getSingleChainVaults :: "ApiChain \<Rightarrow> Vault list option"
  getChainNewBoosts :: "ApiChain \<Rightarrow> Boost list option"
  addressBook :: "ApiChain \<Rightarrow> ChainBook option"
  isApiChain :: "ApiChain \<Rightarrow> bool"
  toApiChain :: "string \<Rightarrow> ApiChain"
  getAddress :: "string \<Rightarrow> string option"
  MULTICHAIN_ENDPOINTS :: "ApiChain list"

datatype error =
    InvalidChain ApiChain
  | InvalidAddress string
  | TypeError
  | NoNativeLoaded ApiChain
  | NoWnativeLoaded ApiChain
  | NoNativeFound ApiChain
  | NoWnativeFound ApiChain
  | NoFeesFound ApiChain

subsection \<open>Queries\<close>

text \<open>Both lookups are typed \<^verbatim>\<open>TokenEntity | undefined\<close>; at run time the read of
  \<^verbatim>\<open>byAddress\<close> can also give an inherited member, and an inherited member read from
  \<^verbatim>\<open>byId\<close> has no \<^verbatim>\<open>toLowerCase\<close>, so that \<^verbatim>\<open>getTokenByAddress\<close> throws a
  \<^verbatim>\<open>TypeError\<close> on it.\<close>

definition getTokenByAddress ::
  "TokensByChain \<Rightarrow> string \<Rightarrow> ApiChain \<Rightarrow> TokenEntity property" where
  "getTokenByAddress tokensByChain addr chain =
     (case tokensByChain chain of
        None \<Rightarrow> Undefined
      | Some ct \<Rightarrow> jsGet (byAddress ct) (toLowerCase addr))"

definition getTokenById ::
  "TokensByChain \<Rightarrow> string \<Rightarrow> ApiChain \<Rightarrow> error + TokenEntity property" where
  "getTokenById tokensByChain i chain =
     (case tokensByChain chain of
        None \<Rightarrow> Inr Undefined
      | Some ct \<Rightarrow>
          (case jsGet (byId ct) i of
             Undefined \<Rightarrow> Inr Undefined
           | Own addr \<Rightarrow>
               if addr \<noteq> [] then Inr (getTokenByAddress tokensByChain addr chain)
               else Inr Undefined
           | Inherited \<Rightarrow> Inl TypeError))"

definition isTokenNative :: "TokenEntity \<Rightarrow> bool" where
  "isTokenNative t = (type' t = Native)"

definition isTokenErc20 :: "TokenEntity \<Rightarrow> bool" where
  "isTokenErc20 t = (type' t = Erc20)"

text \<open>An inherited member is truthy and has no \<^verbatim>\<open>type\<close>, so the type guards reject
  it.\<close>

definition getTokenNative :: "TokensByChain \<Rightarrow> ApiChain \<Rightarrow> error + TokenEntity" where
  "getTokenNative tokensByChain chain =
     (case getTokenById tokensByChain ''NATIVE'' chain of
        Inl e \<Rightarrow> Inl e
      | Inr p \<Rightarrow>
          (case p of
             Undefined \<Rightarrow> Inl (NoNativeFound chain)
           | Own t \<Rightarrow> if \<not> isTokenNative t then Inl (NoNativeFound chain) else Inr t
           | Inherited \<Rightarrow> Inl (NoNativeFound chain)))"

definition getTokenWrappedNative :: "TokensByChain \<Rightarrow> ApiChain \<Rightarrow> error + TokenEntity" where
  "getTokenWrappedNative tokensByChain chain =
     (case getTokenById tokensByChain ''WNATIVE'' chain of
        Inl e \<Rightarrow> Inl e
      | Inr p \<Rightarrow>
          (case p of
             Undefined \<Rightarrow> Inl (NoWnativeFound chain)
           | Own t \<Rightarrow> if \<not> isTokenErc20 t then Inl (NoWnativeFound chain) else Inr t
           | Inherited \<Rightarrow> Inl (NoWnativeFound chain)))"

definition getTokenFees :: "TokensByChain \<Rightarrow> ApiChain \<Rightarrow> error + TokenEntity" where
  "getTokenFees tokensByChain chain =
     (case getTokenById tokensByChain ''FEES'' chain of
        Inl e \<Rightarrow> Inl e
      | Inr p \<Rightarrow>
          (case p of
             Undefined \<Rightarrow> Inl (NoFeesFound chain)
           | Own t \<Rightarrow> if \<not> isTokenErc20 t then Inl (NoFeesFound chain) else Inr t
           | Inherited \<Rightarrow> Inl (NoFeesFound chain)))"

definition areTokensEqual :: "TokenEntity \<Rightarrow> TokenEntity \<Rightarrow> bool" where
  "areTokensEqual tokenA tokenB =
     (chainId tokenA = chainId tokenB \<and> address tokenA = address tokenB \<and> type' tokenA = type' tokenB)"

definition wrappedToNative :: "TokensByChain \<Rightarrow> TokenEntity \<Rightarrow> error + TokenEntity" where
  "wrappedToNative tokensByChain t =
     (case getTokenWrappedNative tokensByChain (chainId t) of
        Inl e \<Rightarrow> Inl e
      | Inr wnative \<Rightarrow>
          if areTokensEqual t wnative then getTokenNative tokensByChain (chainId t) else Inr t)"

definition nativeToWrapped :: "TokensByChain \<Rightarrow> TokenEntity \<Rightarrow> error + TokenEntity" where
  "nativeToWrapped tokensByChain t =
     (if isTokenNative t then getTokenWrappedNative tokensByChain (chainId t) else Inr t)"

subsection \<open>Source adapters\<close>

text \<open>Each adapter is a \<^verbatim>\<open>reduce\<close> that pushes onto an accumulator; the step functions
  below are the bodies of the callbacks.\<close>

definition vaultStep :: "ApiChain \<Rightarrow> TokenEntity list \<Rightarrow> Vault \<Rightarrow> TokenEntity list" where
  "vaultStep chain acc vault =
     (let acc1 =
        (case tokenAddress vault of
           None \<Rightarrow> acc
         | Some a \<Rightarrow>
             if a \<noteq> [] \<and> vaultType vault \<noteq> ''cowcentrated''
             then acc @ [\<lparr> type' = Erc20, id' = token vault, symbol = token vault,
                           name = token vault, chainId = chain, oracle' = vaultOracle vault,
                           oracleId = vaultOracleId vault, address = a,
                           decimals = tokenDecimals vault, bridge = None, staked = None \<rparr>]
             else acc)
      in (case earnedTokenAddress vault of
            None \<Rightarrow> acc1
          | Some a \<Rightarrow>
              if a \<noteq> [] \<and> a \<noteq> ''native'' \<and> a \<noteq> earnContractAddress vault
              then acc1 @ [\<lparr> type' = Erc20, id' = earnedToken vault, symbol = earnedToken vault,
                             name = earnedToken vault, chainId = chain, oracle' = ''tokens'',
                             oracleId = earnedToken vault, address = a,
                             decimals = numOr (earnedTokenDecimals vault) 18,
                             bridge = None, staked = None \<rparr>]
              else acc1))"

definition fetchVaultTokensForChain :: "Env \<Rightarrow> ApiChain \<Rightarrow> TokenEntity list" where
  "fetchVaultTokensForChain env chain =
     (let vaults = (case getVaultsByChain env chain of None \<Rightarrow> [] | Some vs \<Rightarrow> vs)
      in foldl (vaultStep chain) [] vaults)"

definition rewardStep ::
  "Env \<Rightarrow> ApiChain \<Rightarrow> string set \<Rightarrow> TokenEntity list \<Rightarrow> Reward \<Rightarrow> TokenEntity list" where
  "rewardStep env chain vaultAddresses acc reward =
     (case rewardAddress reward of
        None \<Rightarrow> acc
      | Some a \<Rightarrow>
          if rewardType reward = ''token'' \<and> a \<noteq> [] \<and> a \<noteq> ''native'' \<and> a \<notin> vaultAddresses
          then acc @ [\<lparr> type' = Erc20, id' = rewardSymbol reward, symbol = rewardSymbol reward,
                        name = rewardSymbol reward,
                        chainId = (case rewardChainId reward of
                                     None \<Rightarrow> chain
                                   | Some c \<Rightarrow> if c \<noteq> [] then toApiChain env c else chain),
                        oracle' = strOr (rewardOracle reward) ''tokens'',
                        oracleId = strOr (rewardOracleId reward) (rewardSymbol reward),
                        address = a,
                        decimals = numOr (rewardDecimals reward) 18,
                        bridge = None, staked = None \<rparr>]
          else acc)"

definition boostStep ::
  "Env \<Rightarrow> ApiChain \<Rightarrow> string set \<Rightarrow> TokenEntity list \<Rightarrow> Boost \<Rightarrow> TokenEntity list" where
  "boostStep env chain vaultAddresses acc boost =
     foldl (rewardStep env chain vaultAddresses) acc (rewards boost)"

definition vaultAddressSet :: "Env \<Rightarrow> ApiChain \<Rightarrow> string set" where
  "vaultAddressSet env chain =
     set (map earnContractAddress
            (case getSingleChainVaults env chain of None \<Rightarrow> [] | Some vs \<Rightarrow> vs))"

definition fetchBoostTokensForChain :: "Env \<Rightarrow> ApiChain \<Rightarrow> TokenEntity list" where
  "fetchBoostTokensForChain env chain =
     (let boosts = (case getChainNewBoosts env chain of None \<Rightarrow> [] | Some bs \<Rightarrow> bs)
      in foldl (boostStep env chain (vaultAddressSet env chain)) [] boosts)"

definition nativeFrom :: "ApiChain \<Rightarrow> ChainBook \<Rightarrow> string \<Rightarrow> Token \<Rightarrow> TokenEntity" where
  "nativeFrom chain book i t =
     \<lparr> type' = Native, id' = i, symbol = nativeSymbol book, name = abName t, chainId = chain,
       oracle' = ''tokens'', oracleId = nativeOracleId book, address = ''native'',
       decimals = abDecimals t, bridge = Some ''native'', staked = None \<rparr>"

definition abStep ::
  "ApiChain \<Rightarrow> ChainBook \<Rightarrow> TokenEntity list \<Rightarrow> string \<times> Token \<Rightarrow> TokenEntity list" where
  "abStep chain book acc entry =
     (case entry of (i, t) \<Rightarrow>
        if toLowerCase i = toLowerCase (nativeSymbol book)
        then acc @ [nativeFrom chain book i t]
        else
          (let acc1 = acc @ [\<lparr> type' = Erc20, id' = i, symbol = abSymbol t, name = abName t,
                                chainId = chain, oracle' = strOr (abOracle t) ''tokens'',
                                oracleId = strOr (abOracleId t) i, address = abAddress t,
                                decimals = abDecimals t,
                                bridge = (if truthy (abBridge t) then abBridge t else None),
                                staked = (if abStaked t = Some True then Some True else None) \<rparr>]
           in if i = ''WNATIVE'' then acc1 @ [nativeFrom chain book ''NATIVE'' t] else acc1))"

definition fetchAddressBookTokensForChain :: "Env \<Rightarrow> ApiChain \<Rightarrow> TokenEntity list" where
  "fetchAddressBookTokensForChain env chain =
     (case addressBook env chain of
        None \<Rightarrow> []
      | Some book \<Rightarrow>
          if tokens book = [] \<or> map_of (tokens book) ''WNATIVE'' = None then []
          else foldl (abStep chain book) [] (tokens book))"

subsection \<open>Aggregation\<close>

text \<open>
  \<^verbatim>\<open>addToken\<close> mutates the two dictionaries; the model returns the updated pair, or
  the error when \<^verbatim>\<open>getAddress\<close> throws. Its two tests \<^verbatim>\<open>=== undefined\<close> are reads of
  objects created as \<^verbatim>\<open>{}\<close>. When the read of \<^verbatim>\<open>byAddress\<close> gives an inherited member,
  the \<^verbatim>\<open>else\<close> branch runs with that member as \<^verbatim>\<open>existing\<close>: \<^verbatim>\<open>getAddress\<close> is not
  called, nothing is stored, and the assignment to \<^verbatim>\<open>existing.bridge\<close>, if it happens,
  lands on the built-in object.

  A native token is stored as the object itself, so the stored record and the list
  element are one object in the source. That sharing is not visible in the result: the
  stored object is the first candidate at its address, the insertion pass reads it only
  when it stores it, and the precedence pass reads its \<^verbatim>\<open>symbol\<close> and \<^verbatim>\<open>oracleId\<close>
  before any later address-book record at the same address overwrites them.
\<close>

definition addToken :: "Env \<Rightarrow> TokenEntity \<Rightarrow> ChainTokens \<Rightarrow> error + ChainTokens" where
  "addToken env tok ct =
     (let addressLower = toLowerCase (address tok);
          byId1 = (if jsGet (byId ct) (id' tok) = Undefined
                   then (byId ct)(id' tok \<mapsto> addressLower)
                   else byId ct)
      in (case jsGet (byAddress ct) addressLower of
            Undefined \<Rightarrow>
              if type' tok = Native
              then Inr \<lparr> byId = byId1, byAddress = (byAddress ct)(addressLower \<mapsto> tok) \<rparr>
              else
                (case getAddress env (address tok) of
                   None \<Rightarrow> Inl (InvalidAddress (address tok))
                 | Some a \<Rightarrow>
                     Inr \<lparr> byId = byId1,
                           byAddress = (byAddress ct)(addressLower \<mapsto> tok\<lparr>address := a\<rparr>) \<rparr>)
          | Own existing \<Rightarrow>
              if \<not> truthy (bridge existing) \<and> truthy (bridge tok)
              then Inr \<lparr> byId = byId1,
                         byAddress = (byAddress ct)(addressLower \<mapsto> existing\<lparr>bridge := bridge tok\<rparr>) \<rparr>
              else Inr \<lparr> byId = byId1, byAddress = byAddress ct \<rparr>
          | Inherited \<Rightarrow> Inr \<lparr> byId = byId1, byAddress = byAddress ct \<rparr>))"

text \<open>The body of the second \<^verbatim>\<open>forEach\<close>. A read that gave \<^verbatim>\<open>undefined\<close> would make
  the assignment throw a \<^verbatim>\<open>TypeError\<close>; on an inherited member the two assignments
  land on the built-in object.\<close>

definition overrideToken :: "TokenEntity \<Rightarrow> ChainTokens \<Rightarrow> error + ChainTokens" where
  "overrideToken tok ct =
     (let addressKey = toLowerCase (address tok)
      in (case jsGet (byAddress ct) addressKey of
            Undefined \<Rightarrow> Inl TypeError
          | Own e \<Rightarrow>
              Inr (ct\<lparr>byAddress :=
                     (byAddress ct)(addressKey \<mapsto> e\<lparr>oracleId := oracleId tok, symbol := symbol tok\<rparr>)\<rparr>)
          | Inherited \<Rightarrow> Inr ct))"

text \<open>\<^verbatim>\<open>forEach\<close> with a callback that may throw: the first error ends the loop.\<close>

fun forEach :: "('a \<Rightarrow> 's \<Rightarrow> error + 's) \<Rightarrow> 'a list \<Rightarrow> 's \<Rightarrow> error + 's" where
  "forEach f [] s = Inr s"
| "forEach f (x # xs) s = (case f x s of Inl e \<Rightarrow> Inl e | Inr s' \<Rightarrow> forEach f xs s')"

definition candidates :: "Env \<Rightarrow> ApiChain \<Rightarrow> TokenEntity list" where
  "candidates env chain =
     fetchVaultTokensForChain env chain @ fetchBoostTokensForChain env chain
       @ fetchAddressBookTokensForChain env chain"

text \<open>The two fresh objects \<^verbatim>\<open>{}\<close>: no own properties. What they inherit is accounted
  for by \<open>jsGet\<close>, through which every read of them goes.\<close>

definition emptyTokens :: ChainTokens where
  "emptyTokens = \<lparr> byId = Map.empty, byAddress = Map.empty \<rparr>"

definition fetchTokensForChain :: "Env \<Rightarrow> ApiChain \<Rightarrow> error + ChainTokens" where
  "fetchTokensForChain env chain =
     (if \<not> isApiChain env chain then Inl (InvalidChain chain)
      else
        (case forEach (addToken env) (candidates env chain) emptyTokens of
           Inl e \<Rightarrow> Inl e
         | Inr ct1 \<Rightarrow>
             (case forEach overrideToken (fetchAddressBookTokensForChain env chain) ct1 of
                Inl e \<Rightarrow> Inl e
              | Inr ct2 \<Rightarrow>
                  if \<not> jsTruthy (jsGet (byId ct2) ''NATIVE'') then Inl (NoNativeLoaded chain)
                  else if \<not> jsTruthy (jsGet (byId ct2) ''WNATIVE'')
                  then Inl (NoWnativeLoaded chain)
                  else Inr ct2)))"

subsection \<open>The refresh cycle\<close>

text \<open>The state of the module: the registry and the events emitted so far.
  \<^verbatim>\<open>Promise.all\<close> rejects as soon as one chain's aggregation rejects, and the
  \<^verbatim>\<open>catch\<close> block only logs.\<close>

record State =
  tokensByChain :: TokensByChain
  emitted :: "string list"

fun promiseAll :: "('a \<Rightarrow> error + 'b) \<Rightarrow> 'a list \<Rightarrow> error + 'b list" where
  "promiseAll f [] = Inr []"
| "promiseAll f (x # xs) =
     (case f x of
        Inl e \<Rightarrow> Inl e
      | Inr y \<Rightarrow> (case promiseAll f xs of Inl e \<Rightarrow> Inl e | Inr ys \<Rightarrow> Inr (y # ys)))"

definition publish :: "ApiChain \<times> ChainTokens \<Rightarrow> State \<Rightarrow> State" where
  "publish p st =
     (case p of (chain, ct) \<Rightarrow>
        \<lparr> tokensByChain = (tokensByChain st)(chain \<mapsto> ct),
          emitted = emitted st @ [''tokens/'' @ chain @ ''/ready''] \<rparr>)"

definition updateTokens :: "Env \<Rightarrow> State \<Rightarrow> State" where
  "updateTokens env st =
     (let chains = MULTICHAIN_ENDPOINTS env
      in (case promiseAll (fetchTokensForChain env) chains of
            Inl e \<Rightarrow> st
          | Inr byChain \<Rightarrow>
              (let st' = fold publish (zip chains byChain) st
               in st'\<lparr>emitted := emitted st' @ [''tokens/updated'']\<rparr>)))"

subsection \<open>Notions used to state the properties\<close>

text \<open>The key under which a record enters the address map.\<close>

definition addressKey :: "TokenEntity \<Rightarrow> string" where
  "addressKey t = toLowerCase (address t)"

text \<open>What \<^verbatim>\<open>addToken\<close> stores for the first record at an address: the record itself
  when native, the record with its address normalised otherwise (nothing when
  \<^verbatim>\<open>getAddress\<close> throws).\<close>

definition stored :: "Env \<Rightarrow> TokenEntity \<Rightarrow> TokenEntity option" where
  "stored env t =
     (if type' t = Native then Some t
      else (case getAddress env (address t) of
              None \<Rightarrow> None
            | Some a \<Rightarrow> Some (t\<lparr>address := a\<rparr>)))"

text \<open>The \<^verbatim>\<open>else\<close> branch of \<^verbatim>\<open>addToken\<close> on a stored record: what a later record at
  the same address does to it.\<close>

definition mergeBridge :: "TokenEntity \<Rightarrow> TokenEntity \<Rightarrow> TokenEntity" where
  "mergeBridge e t =
     (if \<not> truthy (bridge e) \<and> truthy (bridge t) then e\<lparr>bridge := bridge t\<rparr> else e)"

text \<open>The two-step lookup of logical id \<open>i\<close> on chain \<open>c\<close> ends at record \<open>t\<close> of
  variant \<open>ty\<close>.\<close>

definition resolvable ::
  "TokensByChain \<Rightarrow> ApiChain \<Rightarrow> string \<Rightarrow> TokenType \<Rightarrow> TokenEntity \<Rightarrow> bool" where
  "resolvable reg c i ty t =
     (case reg c of
        None \<Rightarrow> False
      | Some ct \<Rightarrow>
          (case byId ct i of
             None \<Rightarrow> False
           | Some a \<Rightarrow> a \<noteq> [] \<and> byAddress ct (toLowerCase a) = Some t \<and> type' t = ty))"

text \<open>The first candidate with a logical id, the first and the last candidate at an
  address key, and the first candidate at an address key that carries a bridge tag
  (a truthy \<^verbatim>\<open>bridge\<close>).\<close>

definition firstWithId :: "string \<Rightarrow> TokenEntity list \<Rightarrow> TokenEntity option" where
  "firstWithId i ts = find (\<lambda>t. id' t = i) ts"

definition firstAtAddress :: "string \<Rightarrow> TokenEntity list \<Rightarrow> TokenEntity option" where
  "firstAtAddress k ts = find (\<lambda>t. addressKey t = k) ts"

definition lastAtAddress :: "string \<Rightarrow> TokenEntity list \<Rightarrow> TokenEntity option" where
  "lastAtAddress k ts = find (\<lambda>t. addressKey t = k) (rev ts)"


text \<open>Candidates agree on variants: every record with id \<^verbatim>\<open>NATIVE\<close> is native, every
  record with id \<^verbatim>\<open>WNATIVE\<close> is erc20, and records at one address key have one
  variant.\<close>

definition variantsConsistent :: "TokenEntity list \<Rightarrow> bool" where
  "variantsConsistent ts =
     ((\<forall>t \<in> set ts. id' t = ''NATIVE'' \<longrightarrow> type' t = Native)
      \<and> (\<forall>t \<in> set ts. id' t = ''WNATIVE'' \<longrightarrow> type' t = Erc20)
      \<and> (\<forall>t \<in> set ts. \<forall>u \<in> set ts. addressKey t = addressKey u \<longrightarrow> type' t = type' u))"

text \<open>No record of the list has an address key that names a member of
  \<^verbatim>\<open>Object.prototype\<close>.\<close>

definition plainKeys :: "TokenEntity list \<Rightarrow> bool" where
  "plainKeys ts = (\<forall>t \<in> set ts. addressKey t \<notin> set objectPrototypeKeys)"

text \<open>Every native record of a list sits at the sentinel address.\<close>

definition nativeAtSentinel :: "TokenEntity list \<Rightarrow> bool" where
  "nativeAtSentinel ts = (\<forall>t \<in> set ts. type' t = Native \<longrightarrow> address t = ''native'')"

subsection \<open>A small chain, for concrete runs\<close>

text \<open>Three token contracts in their checksummed spelling and as address keys, and a
  vault's receipt token. The example normaliser is viem's \<^verbatim>\<open>getAddress\<close> on these three
  addresses: every spelling of one of them is mapped to its checksummed spelling. It
  rejects every other string, the empty one among them.\<close>

definition wethAddress :: string where
  "wethAddress = ''0xC02aaA39b223FE8D0A0e5C4F27eAD9083C756Cc2''"

definition usdcAddress :: string where
  "usdcAddress = ''0xA0b86991c6218b36c1d19D4a2e9Eb0cE3606eB48''"

definition daiAddress :: string where
  "daiAddress = ''0x6B175474E89094C44Da98b954EedeAC495271d0F''"

definition wethKey :: string where
  "wethKey = ''0xc02aaa39b223fe8d0a0e5c4f27ead9083c756cc2''"

definition usdcKey :: string where
  "usdcKey = ''0xa0b86991c6218b36c1d19d4a2e9eb0ce3606eb48''"

definition daiKey :: string where
  "daiKey = ''0x6b175474e89094c44da98b954eedeac495271d0f''"

definition mooAddress :: string where
  "mooAddress = ''0x5dA90BA82bED0AB701E6762D2bF44E08634d9776''"

definition exampleGetAddress :: "string \<Rightarrow> string option" where
  "exampleGetAddress a =
     map_of [(wethKey, wethAddress), (usdcKey, usdcAddress), (daiKey, daiAddress)]
       (toLowerCase a)"

text \<open>Chain \<^verbatim>\<open>eth\<close> with an address book of two entries and no vault or boost data.\<close>

definition wethToken :: Token where
  "wethToken =
     \<lparr> abName = ''Wrapped Ether'', abSymbol = ''WETH'', abOracle = None,
       abOracleId = Some ''WETH'', abAddress = wethAddress, abDecimals = 18,
       abBridge = None, abStaked = None \<rparr>"

definition ethBook :: ChainBook where
  "ethBook =
     \<lparr> tokens = [(''WNATIVE'', wethToken), (''ETH'', wethToken)],
       nativeSymbol = ''ETH'', nativeOracleId = ''ETH'' \<rparr>"

definition ethEnv :: Env where
  "ethEnv =
     \<lparr> getVaultsByChain = (\<lambda>c. None), getSingleChainVaults = (\<lambda>c. None),
       getChainNewBoosts = (\<lambda>c. None), addressBook = [''eth'' \<mapsto> ethBook],
       isApiChain = (\<lambda>c. c = ''eth''), toApiChain = (\<lambda>c. c),
       getAddress = exampleGetAddress,
       MULTICHAIN_ENDPOINTS = [''eth''] \<rparr>"

definition ethWrapped :: TokenEntity where
  "ethWrapped =
     \<lparr> type' = Erc20, id' = ''WNATIVE'', symbol = ''WETH'', name = ''Wrapped Ether'',
       chainId = ''eth'', oracle' = ''tokens'', oracleId = ''WETH'', address = wethAddress,
       decimals = 18, bridge = None, staked = None \<rparr>"

definition ethNative :: TokenEntity where
  "ethNative =
     \<lparr> type' = Native, id' = ''NATIVE'', symbol = ''ETH'', name = ''Wrapped Ether'',
       chainId = ''eth'', oracle' = ''tokens'', oracleId = ''ETH'', address = ''native'',
       decimals = 18, bridge = Some ''native'', staked = None \<rparr>"

definition ethTable :: ChainTokens where
  "ethTable =
     \<lparr> byId = [''WNATIVE'' \<mapsto> wethKey, ''NATIVE'' \<mapsto> ''native'', ''ETH'' \<mapsto> ''native''],
       byAddress = [wethKey \<mapsto> ethWrapped, ''native'' \<mapsto> ethNative] \<rparr>"

text \<open>The same environment with a second supported chain, \<^verbatim>\<open>bsc\<close>, that has no
  address book.\<close>

definition twoChainEnv :: Env where
  "twoChainEnv =
     ethEnv\<lparr> isApiChain := (\<lambda>c. c = ''eth'' \<or> c = ''bsc''),
             MULTICHAIN_ENDPOINTS := [''eth'', ''bsc''] \<rparr>"

definition initialState :: State where
  "initialState = \<lparr> tokensByChain = Map.empty, emitted = [] \<rparr>"

subsection \<open>A chain with all three sources\<close>

text \<open>Chain \<^verbatim>\<open>eth\<close> again, now with a vault whose deposit token is named \<^verbatim>\<open>USD\<close>, a
  boost that pays \<^verbatim>\<open>WETH\<close> (its address spelled in lower case) and the vault's own
  receipt token, and an address book whose entries \<^verbatim>\<open>WNATIVE\<close> and \<^verbatim>\<open>WETH\<close> share an
  address, carry a bridge tag and declare no oracle id, and whose entry \<^verbatim>\<open>USD\<close> sits at
  another address than the vault's. \<open>demoTable\<close> is the table the aggregation builds
  from them.\<close>

definition usdVault :: Vault where
  "usdVault =
     \<lparr> token = ''USD'', tokenAddress = Some usdcAddress, vaultType = ''standard'',
       vaultOracle = ''tokens'', vaultOracleId = ''USD'', tokenDecimals = 6,
       earnedToken = ''mooUSD'', earnedTokenAddress = Some mooAddress,
       earnContractAddress = mooAddress, earnedTokenDecimals = Some 18 \<rparr>"

definition wethReward :: Reward where
  "wethReward =
     \<lparr> rewardType = ''token'', rewardAddress = Some wethKey, rewardSymbol = ''WETH'',
       rewardChainId = None, rewardOracleId = Some ''WETH-boost'', rewardOracle = None,
       rewardDecimals = Some 8 \<rparr>"

definition mooReward :: Reward where
  "mooReward =
     \<lparr> rewardType = ''token'', rewardAddress = Some mooAddress, rewardSymbol = ''mooUSD'',
       rewardChainId = None, rewardOracleId = None, rewardOracle = None,
       rewardDecimals = None \<rparr>"

definition demoBook :: ChainBook where
  "demoBook =
     \<lparr> tokens =
         [(''WNATIVE'', wethToken\<lparr>abOracleId := None, abBridge := Some ''canonical''\<rparr>),
          (''WETH'', wethToken\<lparr>abOracleId := None, abBridge := Some ''canonical''\<rparr>),
          (''ETH'', wethToken),
          (''USD'', \<lparr> abName = ''Dai Stablecoin'', abSymbol = ''DAI'', abOracle = None,
                      abOracleId = Some ''DAI'', abAddress = daiAddress, abDecimals = 18,
                      abBridge = None, abStaked = None \<rparr>)],
       nativeSymbol = ''ETH'', nativeOracleId = ''ETH'' \<rparr>"

definition demoEnv :: Env where
  "demoEnv =
     ethEnv\<lparr> getVaultsByChain := [''eth'' \<mapsto> [usdVault]],
             getSingleChainVaults := [''eth'' \<mapsto> [usdVault]],
             getChainNewBoosts := [''eth'' \<mapsto> [\<lparr> rewards = [wethReward, mooReward] \<rparr>]],
             addressBook := [''eth'' \<mapsto> demoBook] \<rparr>"

definition demoVaultUsd :: TokenEntity where
  "demoVaultUsd =
     \<lparr> type' = Erc20, id' = ''USD'', symbol = ''USD'', name = ''USD'', chainId = ''eth'',
       oracle' = ''tokens'', oracleId = ''USD'', address = usdcAddress, decimals = 6,
       bridge = None, staked = None \<rparr>"

definition demoBoostWeth :: TokenEntity where
  "demoBoostWeth =
     \<lparr> type' = Erc20, id' = ''WETH'', symbol = ''WETH'', name = ''WETH'', chainId = ''eth'',
       oracle' = ''tokens'', oracleId = ''WETH-boost'', address = wethKey, decimals = 8,
       bridge = None, staked = None \<rparr>"

definition demoBookWnative :: TokenEntity where
  "demoBookWnative =
     \<lparr> type' = Erc20, id' = ''WNATIVE'', symbol = ''WETH'', name = ''Wrapped Ether'',
       chainId = ''eth'', oracle' = ''tokens'', oracleId = ''WNATIVE'', address = wethAddress,
       decimals = 18, bridge = Some ''canonical'', staked = None \<rparr>"

definition demoBookUsd :: TokenEntity where
  "demoBookUsd =
     \<lparr> type' = Erc20, id' = ''USD'', symbol = ''DAI'', name = ''Dai Stablecoin'',
       chainId = ''eth'', oracle' = ''tokens'', oracleId = ''DAI'', address = daiAddress,
       decimals = 18, bridge = None, staked = None \<rparr>"

definition demoTable :: ChainTokens where
  "demoTable =
     \<lparr> byId = [''USD'' \<mapsto> usdcKey, ''WETH'' \<mapsto> wethKey, ''WNATIVE'' \<mapsto> wethKey,
                ''NATIVE'' \<mapsto> ''native'', ''ETH'' \<mapsto> ''native''],
       byAddress =
         [usdcKey \<mapsto> demoVaultUsd,
          wethKey \<mapsto> demoBoostWeth\<lparr>address := wethAddress, oracleId := ''WETH'',
                                     bridge := Some ''canonical''\<rparr>,
          ''native'' \<mapsto> ethNative,
          daiKey \<mapsto> demoBookUsd] \<rparr>"

text \<open>The same chain when the vault's deposit token is named \<^verbatim>\<open>NATIVE\<close>.\<close>

definition namedNativeVault :: Vault where
  "namedNativeVault = usdVault\<lparr>token := ''NATIVE''\<rparr>"

definition badEnv :: Env where
  "badEnv =
     demoEnv\<lparr> getVaultsByChain := [''eth'' \<mapsto> [namedNativeVault]],
              getSingleChainVaults := [''eth'' \<mapsto> [namedNativeVault]] \<rparr>"

definition badTable :: ChainTokens where
  "badTable =
     \<lparr> byId = [''NATIVE'' \<mapsto> usdcKey, ''WETH'' \<mapsto> wethKey, ''WNATIVE'' \<mapsto> wethKey,
                ''ETH'' \<mapsto> ''native'', ''USD'' \<mapsto> daiKey],
       byAddress =
         [usdcKey \<mapsto> demoVaultUsd\<lparr>id' := ''NATIVE'', symbol := ''NATIVE'', name := ''NATIVE''\<rparr>,
          wethKey \<mapsto> demoBoostWeth\<lparr>address := wethAddress, oracleId := ''WETH'',
                                     bridge := Some ''canonical''\<rparr>,
          ''native'' \<mapsto> ethNative,
          daiKey \<mapsto> demoBookUsd] \<rparr>"

subsection \<open>A chain whose data names members of the prototype\<close>

text \<open>The small chain \<^verbatim>\<open>eth\<close> with a vault whose deposit token is named
  \<^verbatim>\<open>constructor\<close> and whose reward token \<^verbatim>\<open>LP\<close> is given the address
  \<^verbatim>\<open>constructor\<close>, and a boost that pays a token also named \<^verbatim>\<open>constructor\<close>.
  \<open>protoTable\<close> is the table the aggregation builds from them.\<close>

definition protoVault :: Vault where
  "protoVault =
     usdVault\<lparr> token := ''constructor'', earnedToken := ''LP'',
               earnedTokenAddress := Some ''constructor'' \<rparr>"

definition protoReward :: Reward where
  "protoReward =
     \<lparr> rewardType = ''token'', rewardAddress = Some daiAddress,
       rewardSymbol = ''constructor'', rewardChainId = None, rewardOracleId = None,
       rewardOracle = None, rewardDecimals = None \<rparr>"

definition protoEnv :: Env where
  "protoEnv =
     ethEnv\<lparr> getVaultsByChain := [''eth'' \<mapsto> [protoVault]],
             getSingleChainVaults := [''eth'' \<mapsto> [protoVault]],
             getChainNewBoosts := [''eth'' \<mapsto> [\<lparr> rewards = [protoReward] \<rparr>]] \<rparr>"

definition protoDeposit :: TokenEntity where
  "protoDeposit =
     \<lparr> type' = Erc20, id' = ''constructor'', symbol = ''constructor'', name = ''constructor'',
       chainId = ''eth'', oracle' = ''tokens'', oracleId = ''USD'', address = usdcAddress,
       decimals = 6, bridge = None, staked = None \<rparr>"

definition protoEarned :: TokenEntity where
  "protoEarned =
     \<lparr> type' = Erc20, id' = ''LP'', symbol = ''LP'', name = ''LP'', chainId = ''eth'',
       oracle' = ''tokens'', oracleId = ''LP'', address = ''constructor'', decimals = 18,
       bridge = None, staked = None \<rparr>"

definition protoBoosted :: TokenEntity where
  "protoBoosted =
     \<lparr> type' = Erc20, id' = ''constructor'', symbol = ''constructor'', name = ''constructor'',
       chainId = ''eth'', oracle' = ''tokens'', oracleId = ''constructor'', address = daiAddress,
       decimals = 18, bridge = None, staked = None \<rparr>"

definition protoTable :: ChainTokens where
  "protoTable =
     \<lparr> byId = [''LP'' \<mapsto> ''constructor'', ''WNATIVE'' \<mapsto> wethKey, ''NATIVE'' \<mapsto> ''native'',
                ''ETH'' \<mapsto> ''native''],
       byAddress =
         [usdcKey \<mapsto> protoDeposit, daiKey \<mapsto> protoBoosted, wethKey \<mapsto> ethWrapped,
          ''native'' \<mapsto> ethNative] \<rparr>"

section \<open>Properties\<close>

subsection \<open>Lower-casing\<close>

lemma toLowerChar_idem: "toLowerChar (toLowerChar c) = toLowerChar c"
proof (cases c)
  case (Char b0 b1 b2 b3 b4 b5 b6 b7)
  then show ?thesis
    by (cases b0; cases b1; cases b2; cases b3; cases b4; cases b5; cases b6; cases b7;
        simp add: toLowerChar_def)
qed

lemma toLowerCase_idem: "toLowerCase (toLowerCase s) = toLowerCase s"
  by (simp add: toLowerCase_def toLowerChar_idem)

lemma toLowerCase_Nil_iff: "toLowerCase s = [] \<longleftrightarrow> s = []"
  by (simp add: toLowerCase_def)

lemma addressKey_idem: "toLowerCase (addressKey t) = addressKey t"
  by (simp add: addressKey_def toLowerCase_idem)

subsection \<open>Reads of a dictionary\<close>

lemma jsGet_Undefined_iff:
  "jsGet obj k = Undefined \<longleftrightarrow> obj k = None \<and> k \<notin> set objectPrototypeKeys"
  by (simp add: jsGet_def split: option.splits)

lemma jsGet_Own_iff: "jsGet obj k = Own v \<longleftrightarrow> obj k = Some v"
  by (simp add: jsGet_def split: option.splits)

lemma jsGet_Inherited_iff:
  "jsGet obj k = Inherited \<longleftrightarrow> obj k = None \<and> k \<in> set objectPrototypeKeys"
  by (simp add: jsGet_def split: option.splits)

lemma jsGet_plain:
  "k \<notin> set objectPrototypeKeys \<Longrightarrow>
     jsGet obj k = (case obj k of None \<Rightarrow> Undefined | Some v \<Rightarrow> Own v)"
  by (simp add: jsGet_def split: option.splits)

lemma jsTruthy_plain:
  "k \<notin> set objectPrototypeKeys \<Longrightarrow> jsTruthy (jsGet obj k) = truthy (obj k)"
  by (simp add: jsGet_def jsTruthy_def truthy_def split: option.splits)

lemma plain_names:
  "''NATIVE'' \<notin> set objectPrototypeKeys" "''WNATIVE'' \<notin> set objectPrototypeKeys"
  "''FEES'' \<notin> set objectPrototypeKeys" "''native'' \<notin> set objectPrototypeKeys"
  "[] \<notin> set objectPrototypeKeys"
  by (simp_all add: objectPrototypeKeys_def)

subsection \<open>Lists\<close>

lemma find_append:
  "find P (xs @ ys) = (case find P xs of None \<Rightarrow> find P ys | Some x \<Rightarrow> Some x)"
  by (induction xs) simp_all


lemma filter_Cons_find:
  "filter P xs = f # rest \<Longrightarrow> find P xs = Some f"
  by (induction xs) (auto split: if_splits)

lemma find_Some_mem: "find P xs = Some x \<Longrightarrow> x \<in> set xs \<and> P x"
  by (induction xs) (auto split: if_splits)



lemma foldl_inv:
  assumes "Q acc" and "\<And>a v. Q a \<Longrightarrow> Q (step a v)"
  shows "Q (foldl step acc vs)"
  using assms(1) by (induction vs arbitrary: acc) (simp_all add: assms(2))

subsection \<open>The insertion pass\<close>

text \<open>One call of \<^verbatim>\<open>addToken\<close>, then the whole \<^verbatim>\<open>forEach\<close>: the id map keeps the
  first address written for an id that names no member of the prototype, and none for
  an id that names one; the entry at an address key is what the first record there
  stored, merged with the later records at that key, and there is none at a key that
  names a member of the prototype.\<close>

lemma addToken_byId:
  assumes "addToken env t ct = Inr ct'"
  shows "byId ct' i =
     (if id' t = i \<and> byId ct i = None \<and> i \<notin> set objectPrototypeKeys
      then Some (addressKey t) else byId ct i)"
  using assms
  by (auto simp: addToken_def addressKey_def Let_def jsGet_Undefined_iff
      split: property.splits option.splits if_splits)

lemma addToken_byAddress:
  assumes "addToken env t ct = Inr ct'"
  shows "byAddress ct' k =
     (if addressKey t = k
      then (case byAddress ct k of
              Some e \<Rightarrow> Some (mergeBridge e t)
            | None \<Rightarrow> if k \<in> set objectPrototypeKeys then None else stored env t)
      else byAddress ct k)"
proof (cases "jsGet (byAddress ct) (toLowerCase (address t))")
  case Undefined
  with assms show ?thesis
    by (auto simp: addToken_def addressKey_def stored_def Let_def jsGet_Undefined_iff
        split: option.splits if_splits)
next
  case (Own e)
  with assms show ?thesis
    by (auto simp: addToken_def addressKey_def mergeBridge_def Let_def jsGet_Own_iff
        split: if_splits)
next
  case Inherited
  with assms show ?thesis
    by (auto simp: addToken_def addressKey_def Let_def jsGet_Inherited_iff)
qed

lemma addToken_stored:
  assumes "addToken env t ct = Inr ct'" and "jsGet (byAddress ct) (addressKey t) = Undefined"
  shows "\<exists>s. stored env t = Some s"
  using assms
  by (auto simp: addToken_def addressKey_def stored_def Let_def split: option.splits if_splits)

lemma addToken_dom:
  assumes "addToken env t ct = Inr ct'"
  shows "dom (byAddress ct') = dom (byAddress ct) \<union> ({addressKey t} - set objectPrototypeKeys)"
proof -
  have "(byAddress ct' k \<noteq> None) =
      (byAddress ct k \<noteq> None \<or> (k = addressKey t \<and> k \<notin> set objectPrototypeKeys))" for k
  proof (cases "byAddress ct (addressKey t)")
    case (Some e)
    then show ?thesis by (auto simp: addToken_byAddress[OF assms])
  next
    case None
    show ?thesis
    proof (cases "addressKey t \<in> set objectPrototypeKeys")
      case True
      with None show ?thesis by (auto simp: addToken_byAddress[OF assms])
    next
      case False
      with None have "jsGet (byAddress ct) (addressKey t) = Undefined"
        by (simp add: jsGet_Undefined_iff)
      with addToken_stored[OF assms] obtain s where "stored env t = Some s" by auto
      with None False show ?thesis by (auto simp: addToken_byAddress[OF assms])
    qed
  qed
  then show ?thesis by (auto simp: dom_def)
qed

lemma forEach_addToken_byId:
  assumes "forEach (addToken env) ts ct = Inr ct'"
  shows "byId ct' i =
     (case byId ct i of
        Some a \<Rightarrow> Some a
      | None \<Rightarrow>
          if i \<in> set objectPrototypeKeys then None
          else map_option addressKey (find (\<lambda>t. id' t = i) ts))"
  using assms
proof (induction ts arbitrary: ct)
  case Nil
  then show ?case by (simp split: option.splits)
next
  case (Cons t ts)
  then obtain ct1 where s: "addToken env t ct = Inr ct1" and r: "forEach (addToken env) ts ct1 = Inr ct'"
    by (auto split: sum.splits)
  show ?case
    by (simp add: Cons.IH[OF r] addToken_byId[OF s] split: option.splits)
qed

lemma forEach_addToken_byAddress:
  assumes "forEach (addToken env) ts ct = Inr ct'"
  shows "byAddress ct' k =
     (case byAddress ct k of
        Some e \<Rightarrow> Some (foldl mergeBridge e (filter (\<lambda>t. addressKey t = k) ts))
      | None \<Rightarrow>
          if k \<in> set objectPrototypeKeys then None
          else
            (case filter (\<lambda>t. addressKey t = k) ts of
               [] \<Rightarrow> None
             | t # rest \<Rightarrow> map_option (\<lambda>s. foldl mergeBridge s rest) (stored env t)))"
  using assms
proof (induction ts arbitrary: ct)
  case Nil
  then show ?case by (simp split: option.splits)
next
  case (Cons t ts)
  then obtain ct1 where s: "addToken env t ct = Inr ct1" and r: "forEach (addToken env) ts ct1 = Inr ct'"
    by (auto split: sum.splits)
  show ?case
  proof (cases "addressKey t = k")
    case False
    then show ?thesis
      by (cases "byAddress ct k") (simp_all add: Cons.IH[OF r] addToken_byAddress[OF s])
  next
    case True
    show ?thesis
    proof (cases "byAddress ct k")
      case (Some e)
      with True show ?thesis
        by (simp add: Cons.IH[OF r] addToken_byAddress[OF s])
    next
      case None
      show ?thesis
      proof (cases "k \<in> set objectPrototypeKeys")
        case in_proto: True
        with True None show ?thesis
          by (simp add: Cons.IH[OF r] addToken_byAddress[OF s])
      next
        case plain: False
        with True None have "jsGet (byAddress ct) (addressKey t) = Undefined"
          by (simp add: jsGet_Undefined_iff)
        with addToken_stored[OF s] obtain s0 where "stored env t = Some s0" by auto
        with True None plain show ?thesis
          by (simp add: Cons.IH[OF r] addToken_byAddress[OF s])
      qed
    qed
  qed
qed

lemma forEach_addToken_dom:
  assumes "forEach (addToken env) ts ct = Inr ct'"
  shows "dom (byAddress ct') = dom (byAddress ct) \<union> (addressKey ` set ts - set objectPrototypeKeys)"
  using assms
proof (induction ts arbitrary: ct)
  case Nil
  then show ?case by simp
next
  case (Cons t ts)
  then obtain ct1 where s: "addToken env t ct = Inr ct1" and r: "forEach (addToken env) ts ct1 = Inr ct'"
    by (auto split: sum.splits)
  show ?case using Cons.IH[OF r] addToken_dom[OF s] by auto
qed

lemma forEach_addToken_nonempty:
  assumes "forEach (addToken env) ts ct = Inr ct'"
    and "getAddress env [] = None"
    and "byAddress ct [] = None"
    and "\<forall>t \<in> set ts. type' t = Native \<longrightarrow> address t \<noteq> []"
  shows "\<forall>t \<in> set ts. address t \<noteq> []"
  using assms
proof (induction ts arbitrary: ct)
  case Nil
  then show ?case by simp
next
  case (Cons t ts)
  then obtain ct1 where s: "addToken env t ct = Inr ct1" and r: "forEach (addToken env) ts ct1 = Inr ct'"
    by (auto split: sum.splits)
  have ne: "address t \<noteq> []"
  proof
    assume e: "address t = []"
    then have "type' t \<noteq> Native" using Cons.prems(4) by auto
    moreover have "jsGet (byAddress ct) [] = Undefined"
      using Cons.prems(3) by (simp add: jsGet_Undefined_iff plain_names)
    ultimately show False
      using e s Cons.prems(2) by (simp add: addToken_def toLowerCase_def Let_def)
  qed
  then have "addressKey t \<noteq> []" by (simp add: addressKey_def toLowerCase_def)
  then have "byAddress ct1 [] = None"
    using Cons.prems(3) by (simp add: addToken_byAddress[OF s])
  with Cons.IH[OF r Cons.prems(2)] Cons.prems(4) ne show ?case by simp
qed

lemma stored_fields:
  assumes "stored env f = Some s"
  shows "s = f\<lparr>address := address s\<rparr>"
    and "type' f = Native \<Longrightarrow> s = f"
    and "type' f \<noteq> Native \<Longrightarrow> getAddress env (address f) = Some (address s)"
  using assms by (auto simp: stored_def split: if_splits option.splits)

subsection \<open>Bridge merging\<close>


lemma mergeBridge_only_bridge: "mergeBridge e t = e\<lparr>bridge := bridge (mergeBridge e t)\<rparr>"
  by (simp add: mergeBridge_def)

lemma foldl_mergeBridge_only_bridge:
  "foldl mergeBridge e ts = e\<lparr>bridge := bridge (foldl mergeBridge e ts)\<rparr>"
proof (induction ts arbitrary: e)
  case Nil
  then show ?case by simp
next
  case (Cons t ts)
  have "foldl mergeBridge (mergeBridge e t) ts
          = (mergeBridge e t)\<lparr>bridge := bridge (foldl mergeBridge (mergeBridge e t) ts)\<rparr>"
    by (rule Cons.IH)
  also have "\<dots> = e\<lparr>bridge := bridge (foldl mergeBridge (mergeBridge e t) ts)\<rparr>"
    by (subst mergeBridge_only_bridge) simp
  finally show ?case by simp
qed



subsection \<open>The precedence pass\<close>

lemma overrideToken_step:
  assumes "overrideToken t ct = Inr ct'"
  shows "byId ct' = byId ct"
    and "byAddress ct' k =
       (if addressKey t = k
        then map_option (\<lambda>e. e\<lparr>oracleId := oracleId t, symbol := symbol t\<rparr>) (byAddress ct k)
        else byAddress ct k)"
  using assms
  by (auto simp: overrideToken_def addressKey_def Let_def jsGet_Own_iff jsGet_Inherited_iff
      split: property.splits)

lemma forEach_overrideToken:
  assumes "forEach overrideToken ts ct = Inr ct'"
  shows "byId ct' = byId ct"
    and "byAddress ct' k =
       (case find (\<lambda>t. addressKey t = k) (rev ts) of
          None \<Rightarrow> byAddress ct k
        | Some l \<Rightarrow> map_option (\<lambda>e. e\<lparr>oracleId := oracleId l, symbol := symbol l\<rparr>) (byAddress ct k))"
  using assms
proof (induction ts arbitrary: ct)
  case Nil
  { case 1 then show ?case by simp }
  { case 2 then show ?case by simp }
next
  case (Cons t ts)
  { case 1
    then obtain ct1 where s: "overrideToken t ct = Inr ct1" and r: "forEach overrideToken ts ct1 = Inr ct'"
      by (auto split: sum.splits)
    show ?case using Cons.IH(1)[OF r] overrideToken_step(1)[OF s] by simp }
  { case 2
    then obtain ct1 where s: "overrideToken t ct = Inr ct1" and r: "forEach overrideToken ts ct1 = Inr ct'"
      by (auto split: sum.splits)
    show ?case
      by (simp add: Cons.IH(2)[OF r] overrideToken_step(2)[OF s] find_append option.map_comp comp_def
          split: option.splits) }
qed

lemma forEach_overrideToken_dom:
  assumes "forEach overrideToken ts ct = Inr ct'"
  shows "dom (byAddress ct') = dom (byAddress ct)"
proof -
  have "\<And>k. (byAddress ct' k = None) = (byAddress ct k = None)"
    by (simp add: forEach_overrideToken(2)[OF assms] split: option.splits)
  then show ?thesis by (auto simp: dom_def)
qed

subsection \<open>The adapters\<close>

lemma nativeAtSentinel_Nil: "nativeAtSentinel []"
  by (simp add: nativeAtSentinel_def)

lemma nativeAtSentinel_snoc:
  "nativeAtSentinel (acc @ ts) \<longleftrightarrow> nativeAtSentinel acc \<and> nativeAtSentinel ts"
  "nativeAtSentinel (t # ts) \<longleftrightarrow>
     (type' t = Native \<longrightarrow> address t = ''native'') \<and> nativeAtSentinel ts"
  by (auto simp: nativeAtSentinel_def)

lemma vaultStep_nativeAtSentinel:
  "nativeAtSentinel acc \<Longrightarrow> nativeAtSentinel (vaultStep c acc v)"
  by (simp add: vaultStep_def Let_def nativeAtSentinel_snoc nativeAtSentinel_Nil split: option.splits)

lemma rewardStep_nativeAtSentinel:
  "nativeAtSentinel acc \<Longrightarrow> nativeAtSentinel (rewardStep env c V acc r)"
  by (simp add: rewardStep_def nativeAtSentinel_snoc nativeAtSentinel_Nil split: option.splits)

lemma abStep_nativeAtSentinel:
  "nativeAtSentinel acc \<Longrightarrow> nativeAtSentinel (abStep c book acc entry)"
  by (cases entry) (simp add: abStep_def nativeFrom_def Let_def nativeAtSentinel_snoc nativeAtSentinel_Nil)

lemma vault_nativeAtSentinel: "nativeAtSentinel (fetchVaultTokensForChain env c)"
  unfolding fetchVaultTokensForChain_def Let_def
  by (rule foldl_inv[where Q = nativeAtSentinel])
    (simp_all add: nativeAtSentinel_Nil vaultStep_nativeAtSentinel)

lemma boostStep_nativeAtSentinel:
  "nativeAtSentinel acc \<Longrightarrow> nativeAtSentinel (boostStep env c V acc b)"
  unfolding boostStep_def
  by (rule foldl_inv[where Q = nativeAtSentinel]) (simp_all add: rewardStep_nativeAtSentinel)

lemma boost_nativeAtSentinel: "nativeAtSentinel (fetchBoostTokensForChain env c)"
  unfolding fetchBoostTokensForChain_def Let_def
  by (rule foldl_inv[where Q = nativeAtSentinel])
    (simp_all add: nativeAtSentinel_Nil boostStep_nativeAtSentinel)

lemma ab_nativeAtSentinel: "nativeAtSentinel (fetchAddressBookTokensForChain env c)"
proof -
  have "nativeAtSentinel (foldl (abStep c book) [] ts)" for book ts
    by (rule foldl_inv[where Q = nativeAtSentinel])
      (simp_all add: nativeAtSentinel_Nil abStep_nativeAtSentinel)
  then show ?thesis
    by (simp add: fetchAddressBookTokensForChain_def nativeAtSentinel_Nil split: option.splits)
qed

lemma candidates_nativeAtSentinel: "nativeAtSentinel (candidates env c)"
  using vault_nativeAtSentinel[of env c] boost_nativeAtSentinel[of env c] ab_nativeAtSentinel[of env c]
  by (auto simp: nativeAtSentinel_def candidates_def)

lemma rewardStep_acc:
  "rewardStep env c V acc r = acc @ rewardStep env c V [] r"
  by (simp add: rewardStep_def split: option.splits)

lemma foldl_rewardStep:
  "foldl (rewardStep env c V) acc rs = acc @ concat (map (rewardStep env c V []) rs)"
proof (induction rs arbitrary: acc)
  case Nil
  then show ?case by simp
next
  case (Cons r rs)
  show ?case
    by (simp add: Cons.IH) (subst rewardStep_acc, simp)
qed

lemma foldl_boostStep:
  "foldl (boostStep env c V) acc bs =
     acc @ concat (map (\<lambda>b. concat (map (rewardStep env c V []) (rewards b))) bs)"
  by (induction bs arbitrary: acc) (simp_all add: boostStep_def foldl_rewardStep)

lemma rewardStep_emits:
  assumes "t \<in> set (rewardStep env c V [] r)"
  shows "rewardType r = ''token'' \<and> rewardAddress r = Some (address t) \<and> address t \<noteq> []
         \<and> address t \<noteq> ''native'' \<and> address t \<notin> V"
  using assms by (auto simp: rewardStep_def split: option.splits if_splits)

subsection \<open>The table of a successful aggregation\<close>

lemma fetch_Inr_D:
  assumes "fetchTokensForChain env c = Inr ct"
  shows "\<exists>ct1. forEach (addToken env) (candidates env c) emptyTokens = Inr ct1
           \<and> forEach overrideToken (fetchAddressBookTokensForChain env c) ct1 = Inr ct"
    and "truthy (byId ct ''NATIVE'')" and "truthy (byId ct ''WNATIVE'')" and "isApiChain env c"
  using assms
  by (auto simp: fetchTokensForChain_def jsTruthy_plain plain_names split: if_splits sum.splits)

lemma fetch_byId:
  assumes "fetchTokensForChain env c = Inr ct"
  shows "byId ct i =
     (if i \<in> set objectPrototypeKeys then None
      else map_option addressKey (find (\<lambda>t. id' t = i) (candidates env c)))"
proof -
  from fetch_Inr_D(1)[OF assms] obtain ct1
    where a: "forEach (addToken env) (candidates env c) emptyTokens = Inr ct1"
      and o: "forEach overrideToken (fetchAddressBookTokensForChain env c) ct1 = Inr ct"
    by blast
  show ?thesis
    by (simp add: forEach_overrideToken(1)[OF o] forEach_addToken_byId[OF a] emptyTokens_def)
qed

lemma fetch_dom:
  assumes "fetchTokensForChain env c = Inr ct"
  shows "dom (byAddress ct) = addressKey ` set (candidates env c) - set objectPrototypeKeys"
proof -
  from fetch_Inr_D(1)[OF assms] obtain ct1
    where a: "forEach (addToken env) (candidates env c) emptyTokens = Inr ct1"
      and o: "forEach overrideToken (fetchAddressBookTokensForChain env c) ct1 = Inr ct"
    by blast
  show ?thesis
    by (simp add: forEach_overrideToken_dom[OF o] forEach_addToken_dom[OF a] emptyTokens_def)
qed

lemma fetch_entry:
  assumes "fetchTokensForChain env c = Inr ct"
  shows "byAddress ct k =
     (if k \<in> set objectPrototypeKeys then None
      else
        (case filter (\<lambda>t. addressKey t = k) (candidates env c) of
           [] \<Rightarrow> None
         | f # rest \<Rightarrow>
             (case stored env f of
                None \<Rightarrow> None
              | Some s \<Rightarrow>
                  (case lastAtAddress k (fetchAddressBookTokensForChain env c) of
                     None \<Rightarrow> Some (foldl mergeBridge s rest)
                   | Some l \<Rightarrow>
                       Some ((foldl mergeBridge s rest)
                               \<lparr>oracleId := oracleId l, symbol := symbol l\<rparr>)))))"
proof -
  from fetch_Inr_D(1)[OF assms] obtain ct1
    where a: "forEach (addToken env) (candidates env c) emptyTokens = Inr ct1"
      and o: "forEach overrideToken (fetchAddressBookTokensForChain env c) ct1 = Inr ct"
    by blast
  show ?thesis
    by (simp add: forEach_overrideToken(2)[OF o] forEach_addToken_byAddress[OF a]
        emptyTokens_def lastAtAddress_def split: list.splits option.splits)
qed

lemma fetch_entry_plain:
  assumes "fetchTokensForChain env c = Inr ct" and "byAddress ct k = Some e"
  shows "k \<notin> set objectPrototypeKeys"
  using assms(2) by (auto simp: fetch_entry[OF assms(1)] split: if_splits)

lemma fetch_entry_first:
  assumes "fetchTokensForChain env c = Inr ct" and "byAddress ct k = Some e"
  shows "\<exists>f s. firstAtAddress k (candidates env c) = Some f \<and> stored env f = Some s
           \<and> e = s\<lparr>symbol := symbol e, oracleId := oracleId e, bridge := bridge e\<rparr>"
proof -
  note p = fetch_entry_plain[OF assms]
  from assms(2) p obtain f rest
    where fr: "filter (\<lambda>t. addressKey t = k) (candidates env c) = f # rest"
    by (simp add: fetch_entry[OF assms(1)] split: list.splits)
  with assms(2) p obtain s where s: "stored env f = Some s"
    by (simp add: fetch_entry[OF assms(1)] split: option.splits)
  have m: "foldl mergeBridge s rest = s\<lparr>bridge := bridge (foldl mergeBridge s rest)\<rparr>"
    by (rule foldl_mergeBridge_only_bridge)
  have "e = s\<lparr>symbol := symbol e, oracleId := oracleId e, bridge := bridge e\<rparr>"
  proof (cases "lastAtAddress k (fetchAddressBookTokensForChain env c)")
    case None
    with assms(2) p fr s have "e = foldl mergeBridge s rest"
      by (simp add: fetch_entry[OF assms(1)])
    then show ?thesis by (subst (asm) m) simp
  next
    case (Some l)
    with assms(2) p fr s
    have "e = (foldl mergeBridge s rest)\<lparr>oracleId := oracleId l, symbol := symbol l\<rparr>"
      by (simp add: fetch_entry[OF assms(1)])
    then show ?thesis by (subst (asm) m) simp
  qed
  with s filter_Cons_find[OF fr] show ?thesis by (auto simp: firstAtAddress_def)
qed

lemma fetch_entry_type:
  assumes "fetchTokensForChain env c = Inr ct" and "byAddress ct k = Some e"
  shows "\<exists>f. firstAtAddress k (candidates env c) = Some f \<and> type' e = type' f"
proof -
  from fetch_entry_first[OF assms] obtain f s where f: "firstAtAddress k (candidates env c) = Some f"
    and s: "stored env f = Some s"
    and e: "e = s\<lparr>symbol := symbol e, oracleId := oracleId e, bridge := bridge e\<rparr>"
    by blast
  have "type' e = type' s" by (subst e) simp
  also have "type' s = type' f" by (subst stored_fields(1)[OF s]) simp
  finally show ?thesis using f by blast
qed

subsection \<open>Queries and the refresh cycle\<close>

lemma getTokenById_unfold:
  "getTokenById reg i c =
     (case reg c of
        None \<Rightarrow> Inr Undefined
      | Some ct \<Rightarrow>
          (case byId ct i of
             Some a \<Rightarrow>
               if a \<noteq> [] then Inr (jsGet (byAddress ct) (toLowerCase a)) else Inr Undefined
           | None \<Rightarrow> if i \<in> set objectPrototypeKeys then Inl TypeError else Inr Undefined))"
  by (simp add: getTokenById_def getTokenByAddress_def jsGet_def split: option.splits)

lemma getTokenById_plain:
  assumes "i \<notin> set objectPrototypeKeys"
  shows "getTokenById reg i c =
     (case reg c of
        None \<Rightarrow> Inr Undefined
      | Some ct \<Rightarrow>
          (case byId ct i of
             Some a \<Rightarrow>
               if a \<noteq> [] then Inr (jsGet (byAddress ct) (toLowerCase a)) else Inr Undefined
           | None \<Rightarrow> Inr Undefined))"
  using assms by (simp add: getTokenById_unfold split: option.splits)

lemma fetch_id_resolves:
  assumes "fetchTokensForChain env c = Inr ct" and "reg c = Some ct"
    and "plainKeys (candidates env c)" and "truthy (byId ct i)"
  shows "\<exists>tn fn en. firstWithId i (candidates env c) = Some tn
           \<and> byId ct i = Some (addressKey tn)
           \<and> firstAtAddress (addressKey tn) (candidates env c) = Some fn
           \<and> getTokenById reg i c = Inr (Own en) \<and> type' en = type' fn"
proof -
  from assms(4) obtain a where a: "byId ct i = Some a" and ne: "a \<noteq> []"
    by (auto simp: truthy_def split: option.splits)
  have "map_option addressKey (find (\<lambda>t. id' t = i) (candidates env c)) = Some a"
    using fetch_byId[OF assms(1), of i] a by (simp split: if_splits)
  then obtain tn
    where tn: "find (\<lambda>t. id' t = i) (candidates env c) = Some tn" and k: "a = addressKey tn"
    by (auto simp: map_option_eq_Some)
  from find_Some_mem[OF tn] have m: "tn \<in> set (candidates env c)" by simp
  with assms(3) have "addressKey tn \<notin> set objectPrototypeKeys"
    by (simp add: plainKeys_def)
  with m have "addressKey tn \<in> dom (byAddress ct)"
    using fetch_dom[OF assms(1)] by auto
  then obtain en where en: "byAddress ct (addressKey tn) = Some en" by auto
  from fetch_entry_type[OF assms(1) en] obtain fn
    where fn: "firstAtAddress (addressKey tn) (candidates env c) = Some fn" and ty: "type' en = type' fn"
    by blast
  have "getTokenById reg i c = Inr (Own en)"
    using assms(2) a ne k en by (simp add: getTokenById_unfold addressKey_idem jsGet_def)
  with tn a k fn ty show ?thesis by (auto simp: firstWithId_def)
qed

lemma promiseAll_Inr_iff:
  "(\<exists>ys. promiseAll f xs = Inr ys) \<longleftrightarrow> (\<forall>x \<in> set xs. \<exists>y. f x = Inr y)"
  by (induction xs) (auto split: sum.splits)

lemma promiseAll_fails:
  assumes "x \<in> set xs" and "f x = Inl e"
  shows "\<exists>e'. promiseAll f xs = Inl e'"
proof (cases "promiseAll f xs")
  case (Inl a)
  then show ?thesis by blast
next
  case (Inr ys)
  then have "\<exists>y. f x = Inr y"
    using promiseAll_Inr_iff [of f xs] assms(1) by blast
  with assms(2) show ?thesis by simp
qed

text \<open>A cycle in which every chain's aggregation succeeds publishes each chain's table
  and leaves the other entries of the registry as they were.\<close>

lemma promiseAll_Inr_D:
  assumes "promiseAll f xs = Inr ys"
  shows "length ys = length xs \<and> (\<forall>p \<in> set (zip xs ys). f (fst p) = Inr (snd p))"
  using assms
proof (induction xs arbitrary: ys)
  case Nil
  then show ?case by simp
next
  case (Cons x xs)
  then obtain y ys' where y: "f x = Inr y" and r: "promiseAll f xs = Inr ys'" and e: "ys = y # ys'"
    by (auto split: sum.splits)
  from Cons.IH[OF r] y e show ?case by auto
qed

lemma publish_tokensByChain:
  "tokensByChain (publish (a, b) st) = (tokensByChain st)(a \<mapsto> b)"
  by (simp add: publish_def)

lemma fold_publish_lookup:
  "tokensByChain (fold publish zs st) c =
     (case map_of (rev zs) c of None \<Rightarrow> tokensByChain st c | Some ct \<Rightarrow> Some ct)"
proof (induction zs arbitrary: st)
  case Nil
  then show ?case by simp
next
  case (Cons z zs)
  show ?case
    by (cases z) (simp add: Cons.IH publish_tokensByChain map_add_def split: option.splits)
qed

lemma updateTokens_publishes:
  assumes "\<forall>x \<in> set (MULTICHAIN_ENDPOINTS env). \<exists>y. fetchTokensForChain env x = Inr y"
  shows "tokensByChain (updateTokens env st) c =
     (if c \<in> set (MULTICHAIN_ENDPOINTS env)
      then (case fetchTokensForChain env c of Inl e \<Rightarrow> None | Inr ct \<Rightarrow> Some ct)
      else tokensByChain st c)"
proof -
  let ?cs = "MULTICHAIN_ENDPOINTS env"
  from assms obtain ys where ys: "promiseAll (fetchTokensForChain env) ?cs = Inr ys"
    using promiseAll_Inr_iff[of "fetchTokensForChain env" ?cs] by blast
  from promiseAll_Inr_D[OF ys] have len: "length ys = length ?cs"
    and each: "\<forall>p \<in> set (zip ?cs ys). fetchTokensForChain env (fst p) = Inr (snd p)"
    by blast+
  have u: "tokensByChain (updateTokens env st) c =
      (case map_of (rev (zip ?cs ys)) c of None \<Rightarrow> tokensByChain st c | Some ct \<Rightarrow> Some ct)"
    by (simp add: updateTokens_def ys fold_publish_lookup Let_def)
  show ?thesis
  proof (cases "map_of (rev (zip ?cs ys)) c")
    case None
    then have "c \<notin> fst ` set (zip ?cs ys)"
      by (simp add: map_of_eq_None_iff)
    moreover have "fst ` set (zip ?cs ys) = set ?cs"
      using len map_fst_zip[of ?cs ys] by (metis set_map)
    ultimately have "c \<notin> set ?cs" by simp
    with u None show ?thesis by simp
  next
    case (Some ct)
    then have m: "(c, ct) \<in> set (zip ?cs ys)"
      using map_of_SomeD[of "rev (zip ?cs ys)" c ct] by simp
    then have "c \<in> set ?cs" by (rule set_zip_leftD)
    moreover from each m have "fetchTokensForChain env c = Inr ct" by force
    ultimately show ?thesis using u Some by simp
  qed
qed

subsection \<open>Concrete runs\<close>

text \<open>The adapters and the aggregation evaluated on the example chains.\<close>

lemmas adapter_defs =
  fetchVaultTokensForChain_def fetchBoostTokensForChain_def fetchAddressBookTokensForChain_def
  candidates_def vaultStep_def boostStep_def rewardStep_def abStep_def nativeFrom_def
  vaultAddressSet_def strOr_def numOr_def truthy_def toLowerCase_def toLowerChar_def

lemmas example_addresses =
  wethAddress_def usdcAddress_def daiAddress_def wethKey_def usdcKey_def daiKey_def
  mooAddress_def

lemmas run_defs =
  addToken_def overrideToken_def emptyTokens_def jsGet_def jsTruthy_def objectPrototypeKeys_def
  exampleGetAddress_def example_addresses Let_def truthy_def toLowerCase_def toLowerChar_def



lemma bsc_fails: "fetchTokensForChain twoChainEnv ''bsc'' = Inl (NoNativeLoaded ''bsc'')"
  by (simp add: fetchTokensForChain_def twoChainEnv_def ethEnv_def adapter_defs emptyTokens_def
      jsGet_def jsTruthy_def objectPrototypeKeys_def)

lemma eth_env:
  "isApiChain ethEnv ''eth''" "getAddress ethEnv = exampleGetAddress"
  "MULTICHAIN_ENDPOINTS ethEnv = [''eth'']"
  by (simp_all add: ethEnv_def)

lemma eth_book:
  "fetchAddressBookTokensForChain ethEnv ''eth'' =
     [ethWrapped, ethNative, ethNative\<lparr>id' := ''ETH''\<rparr>]"
  by (simp add: ethEnv_def ethBook_def wethToken_def ethWrapped_def ethNative_def adapter_defs)

lemma eth_candidates:
  "candidates ethEnv ''eth'' = [ethWrapped, ethNative, ethNative\<lparr>id' := ''ETH''\<rparr>]"
  by (simp add: candidates_def eth_book) (simp add: ethEnv_def adapter_defs)

lemma eth_ok: "fetchTokensForChain ethEnv ''eth'' = Inr ethTable"
  by (simp add: fetchTokensForChain_def eth_candidates eth_book eth_env
      ethWrapped_def ethNative_def ethTable_def run_defs)

lemma eth_update:
  "updateTokens ethEnv initialState =
     \<lparr> tokensByChain = [''eth'' \<mapsto> ethTable],
       emitted = [''tokens/eth/ready'', ''tokens/updated''] \<rparr>"
  by (simp add: updateTokens_def eth_env eth_ok publish_def initialState_def)

lemma eth_no_fees:
  "getTokenFees [''eth'' \<mapsto> ethTable] ''eth'' = Inl (NoFeesFound ''eth'')"
  by (simp add: getTokenFees_def getTokenById_unfold ethTable_def objectPrototypeKeys_def)

lemma eth_lookups:
  "getTokenWrappedNative [''eth'' \<mapsto> ethTable] ''eth'' = Inr ethWrapped"
  "getTokenNative [''eth'' \<mapsto> ethTable] ''eth'' = Inr ethNative"
  by (simp_all add: getTokenWrappedNative_def getTokenNative_def getTokenById_unfold ethTable_def
      ethWrapped_def ethNative_def isTokenErc20_def isTokenNative_def jsGet_def
      example_addresses toLowerCase_def toLowerChar_def)

lemma resolvable_eth_native: "resolvable [''eth'' \<mapsto> ethTable] ''eth'' ''NATIVE'' Native ethNative"
  by (simp add: resolvable_def ethTable_def ethNative_def toLowerCase_def toLowerChar_def)

lemma resolvable_eth_wrapped: "resolvable [''eth'' \<mapsto> ethTable] ''eth'' ''WNATIVE'' Erc20 ethWrapped"
  by (simp add: resolvable_def ethTable_def ethWrapped_def example_addresses
      toLowerCase_def toLowerChar_def)

lemma demo_env:
  "isApiChain demoEnv ''eth''" "getAddress demoEnv = exampleGetAddress"
  by (simp_all add: demoEnv_def ethEnv_def)

lemma demo_vault: "fetchVaultTokensForChain demoEnv ''eth'' = [demoVaultUsd]"
  by (simp add: demoEnv_def ethEnv_def usdVault_def demoVaultUsd_def adapter_defs
      example_addresses)

lemma demo_boost: "fetchBoostTokensForChain demoEnv ''eth'' = [demoBoostWeth]"
  by (simp add: demoEnv_def ethEnv_def usdVault_def wethReward_def mooReward_def
      demoBoostWeth_def adapter_defs example_addresses)

lemma demo_book:
  "fetchAddressBookTokensForChain demoEnv ''eth'' =
     [demoBookWnative, ethNative, demoBookWnative\<lparr>id' := ''WETH'', oracleId := ''WETH''\<rparr>,
      ethNative\<lparr>id' := ''ETH''\<rparr>, demoBookUsd]"
  by (simp add: demoEnv_def ethEnv_def demoBook_def wethToken_def demoBookWnative_def
      demoBookUsd_def ethNative_def adapter_defs)

lemma demo_candidates:
  "candidates demoEnv ''eth'' =
     [demoVaultUsd, demoBoostWeth, demoBookWnative, ethNative,
      demoBookWnative\<lparr>id' := ''WETH'', oracleId := ''WETH''\<rparr>, ethNative\<lparr>id' := ''ETH''\<rparr>,
      demoBookUsd]"
  by (simp add: candidates_def demo_vault demo_boost demo_book)

lemmas demo_records =
  demoVaultUsd_def demoBoostWeth_def demoBookWnative_def demoBookUsd_def ethNative_def

lemma demo_ok: "fetchTokensForChain demoEnv ''eth'' = Inr demoTable"
  by (simp add: fetchTokensForChain_def demo_candidates demo_book demo_env
      demo_records demoTable_def run_defs)

lemma demo_consistent: "variantsConsistent (candidates demoEnv ''eth'')"
  by (simp add: demo_candidates variantsConsistent_def demo_records addressKey_def
      example_addresses toLowerCase_def toLowerChar_def)

lemma demo_plain: "plainKeys (candidates demoEnv ''eth'')"
  by (simp add: demo_candidates plainKeys_def demo_records addressKey_def
      objectPrototypeKeys_def example_addresses toLowerCase_def toLowerChar_def)







lemma demo_moo_reward:
  "rewardStep demoEnv ''eth'' (vaultAddressSet demoEnv ''eth'') [] mooReward = []"
  by (simp add: rewardStep_def vaultAddressSet_def demoEnv_def ethEnv_def mooReward_def
      usdVault_def)

lemma bad_env:
  "isApiChain badEnv ''eth''" "getAddress badEnv = exampleGetAddress"
  by (simp_all add: badEnv_def demoEnv_def ethEnv_def)

lemma bad_vault:
  "fetchVaultTokensForChain badEnv ''eth'' =
     [demoVaultUsd\<lparr>id' := ''NATIVE'', symbol := ''NATIVE'', name := ''NATIVE''\<rparr>]"
  by (simp add: badEnv_def demoEnv_def ethEnv_def namedNativeVault_def usdVault_def
      demoVaultUsd_def adapter_defs example_addresses)

lemma bad_boost: "fetchBoostTokensForChain badEnv ''eth'' = [demoBoostWeth]"
  by (simp add: badEnv_def demoEnv_def ethEnv_def namedNativeVault_def usdVault_def
      wethReward_def mooReward_def demoBoostWeth_def adapter_defs example_addresses)

lemma bad_book:
  "fetchAddressBookTokensForChain badEnv ''eth'' =
     [demoBookWnative, ethNative, demoBookWnative\<lparr>id' := ''WETH'', oracleId := ''WETH''\<rparr>,
      ethNative\<lparr>id' := ''ETH''\<rparr>, demoBookUsd]"
  by (simp add: badEnv_def demoEnv_def ethEnv_def demoBook_def wethToken_def demoBookWnative_def
      demoBookUsd_def ethNative_def adapter_defs)

lemma bad_ok: "fetchTokensForChain badEnv ''eth'' = Inr badTable"
  by (simp add: fetchTokensForChain_def candidates_def bad_vault bad_boost bad_book bad_env
      demo_records badTable_def run_defs)

lemma proto_env:
  "isApiChain protoEnv ''eth''" "getAddress protoEnv = exampleGetAddress"
  by (simp_all add: protoEnv_def ethEnv_def)

lemma proto_vault: "fetchVaultTokensForChain protoEnv ''eth'' = [protoDeposit, protoEarned]"
  by (simp add: protoEnv_def ethEnv_def protoVault_def usdVault_def protoDeposit_def
      protoEarned_def adapter_defs example_addresses)

lemma proto_boost: "fetchBoostTokensForChain protoEnv ''eth'' = [protoBoosted]"
  by (simp add: protoEnv_def ethEnv_def protoVault_def usdVault_def protoReward_def
      protoBoosted_def adapter_defs example_addresses)

lemma proto_book:
  "fetchAddressBookTokensForChain protoEnv ''eth'' =
     [ethWrapped, ethNative, ethNative\<lparr>id' := ''ETH''\<rparr>]"
  by (simp add: protoEnv_def ethEnv_def ethBook_def wethToken_def ethWrapped_def ethNative_def
      adapter_defs)

lemma proto_candidates:
  "candidates protoEnv ''eth'' =
     [protoDeposit, protoEarned, protoBoosted, ethWrapped, ethNative, ethNative\<lparr>id' := ''ETH''\<rparr>]"
  by (simp add: candidates_def proto_vault proto_boost proto_book)

lemma proto_ok: "fetchTokensForChain protoEnv ''eth'' = Inr protoTable"
  by (simp add: fetchTokensForChain_def proto_candidates proto_book proto_env
      protoDeposit_def protoEarned_def protoBoosted_def ethWrapped_def ethNative_def
      protoTable_def run_defs)

section \<open>The claims\<close>

text \<open>
  Claim C1, as amended. Let \<^verbatim>\<open>fetchTokensForChain\<close> return a table, and let no
  candidate record have an address key that names a member of \<^verbatim>\<open>Object.prototype\<close>
  (what happens at such keys is left open here). Then the id map holds \<^verbatim>\<open>NATIVE\<close> and
  \<^verbatim>\<open>WNATIVE\<close>, each mapped to the address key of the first candidate record with that
  id, and the two-step lookup resolves each of them to a record of the address map. The
  variant of that record is the variant of the first candidate at that address key:
  the aggregation checks presence only. The records are of the native and of the erc20
  variant, and \<^verbatim>\<open>getTokenNative\<close> and \<^verbatim>\<open>getTokenWrappedNative\<close> return them, when the
  candidates agree on variants (\<open>variantsConsistent\<close>).
\<close>

theorem native_and_wrapped_resolve:
  assumes "fetchTokensForChain env c = Inr ct" and "reg c = Some ct"
    and "plainKeys (candidates env c)"
  shows "\<exists>tn fn en tw fw ew.
           firstWithId ''NATIVE'' (candidates env c) = Some tn
         \<and> byId ct ''NATIVE'' = Some (addressKey tn)
         \<and> firstAtAddress (addressKey tn) (candidates env c) = Some fn
         \<and> getTokenById reg ''NATIVE'' c = Inr (Own en) \<and> type' en = type' fn
         \<and> firstWithId ''WNATIVE'' (candidates env c) = Some tw
         \<and> byId ct ''WNATIVE'' = Some (addressKey tw)
         \<and> firstAtAddress (addressKey tw) (candidates env c) = Some fw
         \<and> getTokenById reg ''WNATIVE'' c = Inr (Own ew) \<and> type' ew = type' fw
         \<and> (variantsConsistent (candidates env c)
              \<longrightarrow> getTokenNative reg c = Inr en \<and> type' en = Native
                \<and> getTokenWrappedNative reg c = Inr ew \<and> type' ew = Erc20)"
proof -
  from fetch_id_resolves[of env c ct reg "''NATIVE''"] assms fetch_Inr_D(2)[OF assms(1)]
  obtain tn fn en
    where n: "firstWithId ''NATIVE'' (candidates env c) = Some tn"
      "byId ct ''NATIVE'' = Some (addressKey tn)"
      "firstAtAddress (addressKey tn) (candidates env c) = Some fn"
      "getTokenById reg ''NATIVE'' c = Inr (Own en)" "type' en = type' fn"
    by blast
  from fetch_id_resolves[of env c ct reg "''WNATIVE''"] assms fetch_Inr_D(3)[OF assms(1)]
  obtain tw fw ew
    where w: "firstWithId ''WNATIVE'' (candidates env c) = Some tw"
      "byId ct ''WNATIVE'' = Some (addressKey tw)"
      "firstAtAddress (addressKey tw) (candidates env c) = Some fw"
      "getTokenById reg ''WNATIVE'' c = Inr (Own ew)" "type' ew = type' fw"
    by blast
  have v: "type' en = Native \<and> type' ew = Erc20" if vc: "variantsConsistent (candidates env c)"
  proof -
    have tn: "tn \<in> set (candidates env c) \<and> id' tn = ''NATIVE''"
      using find_Some_mem[of "\<lambda>t. id' t = ''NATIVE''" "candidates env c" tn] n(1)
      by (simp add: firstWithId_def)
    have fn: "fn \<in> set (candidates env c) \<and> addressKey fn = addressKey tn"
      using find_Some_mem[of "\<lambda>t. addressKey t = addressKey tn" "candidates env c" fn] n(3)
      by (simp add: firstAtAddress_def)
    have tw: "tw \<in> set (candidates env c) \<and> id' tw = ''WNATIVE''"
      using find_Some_mem[of "\<lambda>t. id' t = ''WNATIVE''" "candidates env c" tw] w(1)
      by (simp add: firstWithId_def)
    have fw: "fw \<in> set (candidates env c) \<and> addressKey fw = addressKey tw"
      using find_Some_mem[of "\<lambda>t. addressKey t = addressKey tw" "candidates env c" fw] w(3)
      by (simp add: firstAtAddress_def)
    have "type' fn = type' tn" "type' tn = Native" "type' fw = type' tw" "type' tw = Erc20"
      using vc tn fn tw fw unfolding variantsConsistent_def by blast+
    with n(5) w(5) show ?thesis by simp
  qed
  have "variantsConsistent (candidates env c)
          \<longrightarrow> getTokenNative reg c = Inr en \<and> type' en = Native
            \<and> getTokenWrappedNative reg c = Inr ew \<and> type' ew = Erc20"
    using v n(4) w(4)
    by (auto simp: getTokenNative_def getTokenWrappedNative_def isTokenNative_def isTokenErc20_def)
  with n w show ?thesis by blast
qed

lemma bad_plain: "plainKeys (candidates badEnv ''eth'')"
  by (simp add: candidates_def bad_vault bad_boost bad_book plainKeys_def demo_records
      addressKey_def objectPrototypeKeys_def example_addresses toLowerCase_def toLowerChar_def)

text \<open>The claim as stated fails when vault data names a deposit token \<^verbatim>\<open>NATIVE\<close>: the
  aggregation succeeds, no address key names a member of the prototype, and
  \<^verbatim>\<open>NATIVE\<close> resolves to the vault's erc20 record.\<close>

theorem native_id_resolves_to_erc20:
  "fetchTokensForChain badEnv ''eth'' = Inr badTable
   \<and> plainKeys (candidates badEnv ''eth'')
   \<and> byId badTable ''NATIVE'' = Some usdcKey
   \<and> getTokenById [''eth'' \<mapsto> badTable] ''NATIVE'' ''eth''
       = Inr (Own (demoVaultUsd\<lparr>id' := ''NATIVE'', symbol := ''NATIVE'', name := ''NATIVE''\<rparr>))
   \<and> type' (demoVaultUsd\<lparr>id' := ''NATIVE'', symbol := ''NATIVE'', name := ''NATIVE''\<rparr>) = Erc20
   \<and> getTokenNative [''eth'' \<mapsto> badTable] ''eth'' = Inl (NoNativeFound ''eth'')"
  by (simp add: bad_ok bad_plain)
    (simp add: badTable_def getTokenNative_def getTokenById_unfold demoVaultUsd_def
      isTokenNative_def jsGet_def example_addresses toLowerCase_def toLowerChar_def)

theorem native_and_wrapped_resolve_witness:
  "fetchTokensForChain demoEnv ''eth'' = Inr demoTable
   \<and> plainKeys (candidates demoEnv ''eth'')
   \<and> variantsConsistent (candidates demoEnv ''eth'')
   \<and> (\<exists>en ew. getTokenNative [''eth'' \<mapsto> demoTable] ''eth'' = Inr en \<and> type' en = Native
        \<and> getTokenWrappedNative [''eth'' \<mapsto> demoTable] ''eth'' = Inr ew \<and> type' ew = Erc20)"
proof -
  have r: "[''eth'' \<mapsto> demoTable] ''eth'' = Some demoTable" by simp
  from native_and_wrapped_resolve [of demoEnv "''eth''" demoTable "[''eth'' \<mapsto> demoTable]",
      OF demo_ok r demo_plain]
  obtain en ew where
    "variantsConsistent (candidates demoEnv ''eth'')
       \<longrightarrow> getTokenNative [''eth'' \<mapsto> demoTable] ''eth'' = Inr en \<and> type' en = Native
         \<and> getTokenWrappedNative [''eth'' \<mapsto> demoTable] ''eth'' = Inr ew \<and> type' ew = Erc20"
    by blast
  with demo_consistent have
    "getTokenNative [''eth'' \<mapsto> demoTable] ''eth'' = Inr en \<and> type' en = Native
       \<and> getTokenWrappedNative [''eth'' \<mapsto> demoTable] ''eth'' = Inr ew \<and> type' ew = Erc20"
    by (rule rev_mp)
  then have "\<exists>en ew. getTokenNative [''eth'' \<mapsto> demoTable] ''eth'' = Inr en \<and> type' en = Native
        \<and> getTokenWrappedNative [''eth'' \<mapsto> demoTable] ''eth'' = Inr ew \<and> type' ew = Erc20"
    by (intro exI[of _ en] exI[of _ ew])
  with demo_ok demo_plain demo_consistent show ?thesis by (intro conjI)
qed

text \<open>
  Claim C2. Cycle atomicity: when the aggregation of one supported chain fails, the
  refresh cycle publishes nothing. The state after \<^verbatim>\<open>updateTokens\<close> (the registry, for
  every chain, and the events emitted) is the state before it, whatever the other
  chains' aggregations returned.
\<close>

theorem updateTokens_atomic:
  assumes "c \<in> set (MULTICHAIN_ENDPOINTS env)" and "fetchTokensForChain env c = Inl e"
  shows "updateTokens env st = st"
proof -
  obtain e' where "promiseAll (fetchTokensForChain env) (MULTICHAIN_ENDPOINTS env) = Inl e'"
    using promiseAll_fails [of c "MULTICHAIN_ENDPOINTS env" "fetchTokensForChain env" e] assms
    by blast
  then show ?thesis by (simp add: updateTokens_def)
qed

theorem updateTokens_atomic_witness:
  "''bsc'' \<in> set (MULTICHAIN_ENDPOINTS twoChainEnv)
   \<and> fetchTokensForChain twoChainEnv ''bsc'' = Inl (NoNativeLoaded ''bsc'')
   \<and> updateTokens twoChainEnv initialState = initialState"
proof -
  have m: "''bsc'' \<in> set (MULTICHAIN_ENDPOINTS twoChainEnv)"
    by (simp add: twoChainEnv_def)
  show ?thesis
    using m bsc_fails updateTokens_atomic [OF m bsc_fails, of initialState]
    by (simp only: simp_thms)
qed

text \<open>
  Claim C3. First write wins on the id map, in source priority. The claim does not hold
  of the code for an id that names a member of \<^verbatim>\<open>Object.prototype\<close>: the id map is a
  fresh \<^verbatim>\<open>{}\<close>, on which \<^verbatim>\<open>byId[id] === undefined\<close> is false for such a name although
  nothing has been written, so no record with that id is ever entered, the first one
  included. On the chain below the vault's deposit token and a boost's reward token are
  both called \<^verbatim>\<open>constructor\<close>: the aggregation succeeds, the id map has no entry for the
  id, and looking the id up fails on the inherited member. For every other id the
  entry is the address key of the first candidate record with that id
  (\<open>fetch_byId\<close>), and the later records are processed for the address map
  (\<open>fetch_entry\<close>).
\<close>

theorem constructor_id_never_mapped:
  "fetchTokensForChain protoEnv ''eth'' = Inr protoTable
   \<and> fetchVaultTokensForChain protoEnv ''eth'' = [protoDeposit, protoEarned]
   \<and> fetchBoostTokensForChain protoEnv ''eth'' = [protoBoosted]
   \<and> id' protoDeposit = ''constructor'' \<and> id' protoBoosted = ''constructor''
   \<and> find (\<lambda>t. id' t = ''constructor'')
        (fetchVaultTokensForChain protoEnv ''eth'' @ fetchBoostTokensForChain protoEnv ''eth''
           @ fetchAddressBookTokensForChain protoEnv ''eth'') = Some protoDeposit
   \<and> byId protoTable ''constructor'' = None
   \<and> byAddress protoTable (addressKey protoDeposit) = Some protoDeposit
   \<and> byAddress protoTable (addressKey protoBoosted) = Some protoBoosted
   \<and> getTokenById [''eth'' \<mapsto> protoTable] ''constructor'' ''eth'' = Inl TypeError"
  by (simp add: proto_ok proto_vault proto_boost proto_book)
    (simp add: protoTable_def protoDeposit_def protoBoosted_def getTokenById_unfold
      objectPrototypeKeys_def addressKey_def example_addresses toLowerCase_def toLowerChar_def)






text \<open>
  Claim C6. \<^verbatim>\<open>getTokenNative\<close> fails, with the error "No native token found", exactly
  when the chain has no published table or the two-step lookup of \<^verbatim>\<open>NATIVE\<close> does not
  end at a record of the native variant; otherwise it returns that record. The same
  holds for \<^verbatim>\<open>getTokenWrappedNative\<close> with \<^verbatim>\<open>WNATIVE\<close> and the erc20 variant.
\<close>

theorem getTokenNative_not_configured:
  "(getTokenNative reg c = Inl (NoNativeFound c)
      \<longleftrightarrow> reg c = None \<or> (\<nexists>t. resolvable reg c ''NATIVE'' Native t))
   \<and> (\<forall>e. getTokenNative reg c = Inl e \<longrightarrow> e = NoNativeFound c)
   \<and> (\<forall>t. resolvable reg c ''NATIVE'' Native t \<longrightarrow> getTokenNative reg c = Inr t)
   \<and> (getTokenWrappedNative reg c = Inl (NoWnativeFound c)
      \<longleftrightarrow> reg c = None \<or> (\<nexists>t. resolvable reg c ''WNATIVE'' Erc20 t))
   \<and> (\<forall>e. getTokenWrappedNative reg c = Inl e \<longrightarrow> e = NoWnativeFound c)
   \<and> (\<forall>t. resolvable reg c ''WNATIVE'' Erc20 t \<longrightarrow> getTokenWrappedNative reg c = Inr t)"
  by (auto simp: getTokenNative_def getTokenWrappedNative_def getTokenById_plain plain_names
        jsGet_def resolvable_def isTokenNative_def isTokenErc20_def
        split: option.splits if_splits)

theorem getTokenNative_not_configured_witness:
  "getTokenNative Map.empty ''eth'' = Inl (NoNativeFound ''eth'')
   \<and> getTokenWrappedNative Map.empty ''eth'' = Inl (NoWnativeFound ''eth'')
   \<and> getTokenNative [''eth'' \<mapsto> ethTable] ''eth'' = Inr ethNative
   \<and> getTokenWrappedNative [''eth'' \<mapsto> ethTable] ''eth'' = Inr ethWrapped"
proof -
  note unpublished = getTokenNative_not_configured [of Map.empty "''eth''"]
  note published = getTokenNative_not_configured [of "[''eth'' \<mapsto> ethTable]" "''eth''"]
  have a: "getTokenNative Map.empty ''eth'' = Inl (NoNativeFound ''eth'')"
    using unpublished [THEN conjunct1] by (simp only: simp_thms)
  have b: "getTokenWrappedNative Map.empty ''eth'' = Inl (NoWnativeFound ''eth'')"
    using unpublished [THEN conjunct2, THEN conjunct2, THEN conjunct2, THEN conjunct1]
    by (simp only: simp_thms)
  have c: "getTokenNative [''eth'' \<mapsto> ethTable] ''eth'' = Inr ethNative"
    using published [THEN conjunct2, THEN conjunct2, THEN conjunct1, THEN spec, THEN mp,
        OF resolvable_eth_native] .
  have d: "getTokenWrappedNative [''eth'' \<mapsto> ethTable] ''eth'' = Inr ethWrapped"
    using published [THEN conjunct2, THEN conjunct2, THEN conjunct2, THEN conjunct2,
        THEN conjunct2, THEN spec, THEN mp, OF resolvable_eth_wrapped] .
  show ?thesis using a b c d by (simp only: simp_thms)
qed

text \<open>
  Claim C7, as amended. \<^verbatim>\<open>wrappedToNative\<close> first resolves the wrapped-native record
  of the record's chain and fails, with that error, when it does not resolve. When it
  resolves: a record equal to it (same chain, same address string, same variant) is
  mapped to the result of \<^verbatim>\<open>getTokenNative\<close> for that chain, and any other record is
  returned unchanged.
\<close>

theorem wrappedToNative_cases:
  "(\<forall>e. getTokenWrappedNative reg (chainId t) = Inl e \<longrightarrow> wrappedToNative reg t = Inl e)
   \<and> (\<forall>w. getTokenWrappedNative reg (chainId t) = Inr w \<and> areTokensEqual t w
          \<longrightarrow> wrappedToNative reg t = getTokenNative reg (chainId t))
   \<and> (\<forall>w. getTokenWrappedNative reg (chainId t) = Inr w \<and> \<not> areTokensEqual t w
          \<longrightarrow> wrappedToNative reg t = Inr t)
   \<and> (\<forall>w. areTokensEqual t w
          \<longleftrightarrow> chainId t = chainId w \<and> address t = address w \<and> type' t = type' w)"
proof -
  have a: "\<forall>e. getTokenWrappedNative reg (chainId t) = Inl e \<longrightarrow> wrappedToNative reg t = Inl e"
    by (simp add: wrappedToNative_def)
  have b: "\<forall>w. getTokenWrappedNative reg (chainId t) = Inr w \<and> areTokensEqual t w
          \<longrightarrow> wrappedToNative reg t = getTokenNative reg (chainId t)"
    by (simp add: wrappedToNative_def)
  have c: "\<forall>w. getTokenWrappedNative reg (chainId t) = Inr w \<and> \<not> areTokensEqual t w
          \<longrightarrow> wrappedToNative reg t = Inr t"
    by (simp add: wrappedToNative_def)
  have d: "\<forall>w. areTokensEqual t w
          \<longleftrightarrow> chainId t = chainId w \<and> address t = address w \<and> type' t = type' w"
    by (simp add: areTokensEqual_def)
  from a b c d show ?thesis by (intro conjI)
qed

text \<open>The claim as stated fails for any record of a chain with no published table: the
  record is not equal to a wrapped-native record, and the call fails instead of
  returning it.\<close>

theorem wrappedToNative_fails_unconfigured:
  "getTokenWrappedNative Map.empty (chainId ethNative) = Inl (NoWnativeFound ''eth'')
   \<and> wrappedToNative Map.empty ethNative = Inl (NoWnativeFound ''eth'')
   \<and> wrappedToNative Map.empty ethNative \<noteq> Inr ethNative"
  by (simp add: wrappedToNative_def getTokenWrappedNative_def getTokenById_unfold ethNative_def
      objectPrototypeKeys_def)

theorem wrappedToNative_cases_witness:
  "wrappedToNative [''eth'' \<mapsto> ethTable] ethWrapped = Inr ethNative
   \<and> wrappedToNative [''eth'' \<mapsto> ethTable] ethNative = Inr ethNative
   \<and> wrappedToNative Map.empty ethWrapped = Inl (NoWnativeFound ''eth'')"
proof -
  let ?reg = "[''eth'' \<mapsto> ethTable]"
  have cw: "chainId ethWrapped = ''eth''" and cn: "chainId ethNative = ''eth''"
    by (simp_all add: ethWrapped_def ethNative_def)
  have eq: "areTokensEqual ethWrapped ethWrapped" by (simp add: areTokensEqual_def)
  have ne: "\<not> areTokensEqual ethNative ethWrapped"
    by (simp add: areTokensEqual_def ethWrapped_def ethNative_def)
  have un: "getTokenWrappedNative Map.empty ''eth'' = Inl (NoWnativeFound ''eth'')"
    by (simp add: getTokenWrappedNative_def getTokenById_unfold objectPrototypeKeys_def)
  have "wrappedToNative ?reg ethWrapped = getTokenNative ?reg (chainId ethWrapped)"
    using wrappedToNative_cases [of ?reg ethWrapped, THEN conjunct2, THEN conjunct1, THEN spec,
        of ethWrapped] eth_lookups(1) eq
    by (simp only: cw simp_thms)
  then have a: "wrappedToNative ?reg ethWrapped = Inr ethNative"
    by (simp only: cw eth_lookups(2))
  have b: "wrappedToNative ?reg ethNative = Inr ethNative"
    using wrappedToNative_cases [of ?reg ethNative, THEN conjunct2, THEN conjunct2, THEN conjunct1,
        THEN spec, of ethWrapped] eth_lookups(1) ne
    by (simp only: cn simp_thms)
  have c: "wrappedToNative Map.empty ethWrapped = Inl (NoWnativeFound ''eth'')"
    using wrappedToNative_cases [of Map.empty ethWrapped, THEN conjunct1, THEN spec,
        of "NoWnativeFound ''eth''"] un
    by (simp only: cw simp_thms)
  from a b c show ?thesis by (intro conjI)
qed

text \<open>
  Claim C8. The boost adapter's output is the concatenation, over the chain's boosts and
  their rewards in order, of what the loop body emits for each reward. The body emits a
  record for a reward only if the reward is of type \<^verbatim>\<open>token\<close>, has a non-empty
  address, the address is not \<^verbatim>\<open>native\<close>, and the address is not the
  \<^verbatim>\<open>earnContractAddress\<close> of a vault of \<^verbatim>\<open>getSingleChainVaults\<close>; the record carries that
  address. So no emitted record sits at a vault's receipt-token address.
\<close>

theorem boost_exclusions:
  "fetchBoostTokensForChain env c =
     concat (map (\<lambda>boost. concat (map (rewardStep env c (vaultAddressSet env c) []) (rewards boost)))
       (case getChainNewBoosts env c of None \<Rightarrow> [] | Some bs \<Rightarrow> bs))
   \<and> (\<forall>r t. t \<in> set (rewardStep env c (vaultAddressSet env c) [] r) \<longrightarrow>
         rewardType r = ''token'' \<and> rewardAddress r = Some (address t) \<and> address t \<noteq> []
         \<and> address t \<noteq> ''native''
         \<and> address t \<notin> set (map earnContractAddress
               (case getSingleChainVaults env c of None \<Rightarrow> [] | Some vs \<Rightarrow> vs)))
   \<and> (\<forall>t \<in> set (fetchBoostTokensForChain env c).
         address t \<notin> set (map earnContractAddress
               (case getSingleChainVaults env c of None \<Rightarrow> [] | Some vs \<Rightarrow> vs)))"
proof -
  let ?V = "vaultAddressSet env c"
  let ?bs = "(case getChainNewBoosts env c of None \<Rightarrow> [] | Some bs \<Rightarrow> bs)"
  let ?A = "set (map earnContractAddress
               (case getSingleChainVaults env c of None \<Rightarrow> [] | Some vs \<Rightarrow> vs))"
  have V: "?V = ?A" by (simp add: vaultAddressSet_def)
  have a: "fetchBoostTokensForChain env c =
     concat (map (\<lambda>boost. concat (map (rewardStep env c ?V []) (rewards boost))) ?bs)"
    by (simp add: fetchBoostTokensForChain_def foldl_boostStep)
  have b: "\<forall>r t. t \<in> set (rewardStep env c ?V [] r) \<longrightarrow>
         rewardType r = ''token'' \<and> rewardAddress r = Some (address t) \<and> address t \<noteq> []
         \<and> address t \<noteq> ''native'' \<and> address t \<notin> ?A"
    using rewardStep_emits[of _ env c ?V] unfolding V by blast
  have c: "\<forall>t \<in> set (fetchBoostTokensForChain env c). address t \<notin> ?A"
  proof
    fix t assume "t \<in> set (fetchBoostTokensForChain env c)"
    then obtain r where "t \<in> set (rewardStep env c ?V [] r)"
      unfolding a by auto
    with b show "address t \<notin> ?A" by blast
  qed
  from a b c show ?thesis by (intro conjI)
qed

theorem boost_exclusions_witness:
  "rewardAddress mooReward = Some (earnContractAddress usdVault)
   \<and> getSingleChainVaults demoEnv ''eth'' = Some [usdVault]
   \<and> rewardStep demoEnv ''eth'' (vaultAddressSet demoEnv ''eth'') [] mooReward = []
   \<and> fetchBoostTokensForChain demoEnv ''eth'' = [demoBoostWeth]
   \<and> address demoBoostWeth \<noteq> earnContractAddress usdVault"
proof -
  have v: "getSingleChainVaults demoEnv ''eth'' = Some [usdVault]"
    by (simp add: demoEnv_def ethEnv_def)
  have m: "rewardAddress mooReward = Some (earnContractAddress usdVault)"
    by (simp add: mooReward_def usdVault_def)
  have "demoBoostWeth \<in> set (fetchBoostTokensForChain demoEnv ''eth'')"
    by (simp add: demo_boost)
  with boost_exclusions [of demoEnv "''eth''", THEN conjunct2, THEN conjunct2]
  have "address demoBoostWeth \<notin> set (map earnContractAddress
               (case getSingleChainVaults demoEnv ''eth'' of None \<Rightarrow> [] | Some vs \<Rightarrow> vs))"
    by (rule bspec)
  then have d: "address demoBoostWeth \<noteq> earnContractAddress usdVault"
    by (simp add: v)
  from m v demo_moo_reward demo_boost d show ?thesis by (intro conjI)
qed

text \<open>
  Claim C9. \<^verbatim>\<open>getTokenFees\<close> returns the record that the two-step lookup of \<^verbatim>\<open>FEES\<close>
  ends at when that record is of the erc20 variant, and fails with "No fees token
  found" otherwise: in particular when the chain has no published table, when the id
  map has no \<^verbatim>\<open>FEES\<close> entry, and when the entry is not an erc20 record. The refresh
  does not check \<^verbatim>\<open>FEES\<close>: there is an environment whose refresh cycle succeeds on
  every chain and publishes a table for which \<^verbatim>\<open>getTokenFees\<close> fails.
\<close>

theorem getTokenFees_unvalidated:
  "(getTokenFees reg c = Inl (NoFeesFound c) \<longleftrightarrow> (\<nexists>t. resolvable reg c ''FEES'' Erc20 t))
   \<and> (\<forall>e. getTokenFees reg c = Inl e \<longrightarrow> e = NoFeesFound c)
   \<and> (\<forall>t. resolvable reg c ''FEES'' Erc20 t \<longrightarrow> getTokenFees reg c = Inr t)
   \<and> (reg c = None \<longrightarrow> getTokenFees reg c = Inl (NoFeesFound c))
   \<and> (\<forall>ct. reg c = Some ct \<and> byId ct ''FEES'' = None \<longrightarrow> getTokenFees reg c = Inl (NoFeesFound c))
   \<and> (\<forall>ct a t. reg c = Some ct \<and> byId ct ''FEES'' = Some a
          \<and> byAddress ct (toLowerCase a) = Some t \<and> type' t \<noteq> Erc20
        \<longrightarrow> getTokenFees reg c = Inl (NoFeesFound c))
   \<and> (\<exists>env st ch ct.
         (\<forall>x \<in> set (MULTICHAIN_ENDPOINTS env). \<exists>y. fetchTokensForChain env x = Inr y)
       \<and> ch \<in> set (MULTICHAIN_ENDPOINTS env)
       \<and> fetchTokensForChain env ch = Inr ct
       \<and> tokensByChain (updateTokens env st) ch = Some ct
       \<and> getTokenFees (tokensByChain (updateTokens env st)) ch = Inl (NoFeesFound ch))"
proof -
  note defs = getTokenFees_def getTokenById_plain plain_names jsGet_def resolvable_def
    isTokenErc20_def
  have g1: "getTokenFees reg c = Inl (NoFeesFound c) \<longleftrightarrow> (\<nexists>t. resolvable reg c ''FEES'' Erc20 t)"
    by (auto simp: defs split: option.splits if_splits)
  have g2: "\<forall>e. getTokenFees reg c = Inl e \<longrightarrow> e = NoFeesFound c"
    by (auto simp: defs split: option.splits if_splits)
  have g3: "\<forall>t. resolvable reg c ''FEES'' Erc20 t \<longrightarrow> getTokenFees reg c = Inr t"
    by (auto simp: defs split: option.splits if_splits)
  have g4: "reg c = None \<longrightarrow> getTokenFees reg c = Inl (NoFeesFound c)"
    by (auto simp: defs split: option.splits if_splits)
  have g5: "\<forall>ct. reg c = Some ct \<and> byId ct ''FEES'' = None
        \<longrightarrow> getTokenFees reg c = Inl (NoFeesFound c)"
    by (auto simp: defs split: option.splits if_splits)
  have g6: "\<forall>ct a t. reg c = Some ct \<and> byId ct ''FEES'' = Some a
          \<and> byAddress ct (toLowerCase a) = Some t \<and> type' t \<noteq> Erc20
        \<longrightarrow> getTokenFees reg c = Inl (NoFeesFound c)"
    by (auto simp: defs split: option.splits if_splits)
  have "(\<forall>x \<in> set (MULTICHAIN_ENDPOINTS ethEnv). \<exists>y. fetchTokensForChain ethEnv x = Inr y)
       \<and> ''eth'' \<in> set (MULTICHAIN_ENDPOINTS ethEnv)
       \<and> fetchTokensForChain ethEnv ''eth'' = Inr ethTable
       \<and> tokensByChain (updateTokens ethEnv initialState) ''eth'' = Some ethTable
       \<and> getTokenFees (tokensByChain (updateTokens ethEnv initialState)) ''eth''
           = Inl (NoFeesFound ''eth'')"
    by (simp add: eth_env eth_ok eth_update eth_no_fees)
  then have g7: "\<exists>env st ch ct.
         (\<forall>x \<in> set (MULTICHAIN_ENDPOINTS env). \<exists>y. fetchTokensForChain env x = Inr y)
       \<and> ch \<in> set (MULTICHAIN_ENDPOINTS env)
       \<and> fetchTokensForChain env ch = Inr ct
       \<and> tokensByChain (updateTokens env st) ch = Some ct
       \<and> getTokenFees (tokensByChain (updateTokens env st)) ch = Inl (NoFeesFound ch)"
    by (intro exI[of _ ethEnv] exI[of _ initialState] exI[of _ "''eth''"] exI[of _ ethTable])
  from g1 g2 g3 g4 g5 g6 g7 show ?thesis by (intro conjI)
qed

theorem getTokenFees_unvalidated_witness:
  "fetchTokensForChain ethEnv ''eth'' = Inr ethTable
   \<and> tokensByChain (updateTokens ethEnv initialState) = [''eth'' \<mapsto> ethTable]
   \<and> byId ethTable ''FEES'' = None
   \<and> getTokenFees [''eth'' \<mapsto> ethTable] ''eth'' = Inl (NoFeesFound ''eth'')
   \<and> getTokenFees Map.empty ''eth'' = Inl (NoFeesFound ''eth'')"
proof -
  have r: "[''eth'' \<mapsto> ethTable] ''eth'' = Some ethTable \<and> byId ethTable ''FEES'' = None"
    by (simp add: ethTable_def)
  have u: "tokensByChain (updateTokens ethEnv initialState) = [''eth'' \<mapsto> ethTable]"
    by (simp add: eth_update)
  have a: "getTokenFees [''eth'' \<mapsto> ethTable] ''eth'' = Inl (NoFeesFound ''eth'')"
    using getTokenFees_unvalidated [of "[''eth'' \<mapsto> ethTable]" "''eth''", THEN conjunct2,
        THEN conjunct2, THEN conjunct2, THEN conjunct2, THEN conjunct1, THEN spec, THEN mp, OF r] .
  have e: "Map.empty ''eth'' = (None :: ChainTokens option)" by simp
  have b: "getTokenFees Map.empty ''eth'' = Inl (NoFeesFound ''eth'')"
    using getTokenFees_unvalidated [of Map.empty "''eth''", THEN conjunct2, THEN conjunct2,
        THEN conjunct2, THEN conjunct1, THEN mp, OF e] .
  from eth_ok u r [THEN conjunct2] a b show ?thesis by (intro conjI)
qed

text \<open>
  Claim C10. The two-step lookup never dangles. The claim does not hold of the code for
  a record whose address key names a member of \<^verbatim>\<open>Object.prototype\<close>: the address map
  is a fresh \<^verbatim>\<open>{}\<close>, on which \<^verbatim>\<open>byAddress[addressLower] === undefined\<close> is false for
  such a name although nothing has been written, so the record is taken for a
  duplicate and not stored, while its id has been entered in the id map. On the chain
  below the vault's receipt token \<^verbatim>\<open>LP\<close> has the address \<^verbatim>\<open>constructor\<close>: the
  aggregation succeeds, the id map sends \<^verbatim>\<open>LP\<close> to an address that is no key of the
  address map, and \<^verbatim>\<open>getTokenById\<close> returns the inherited member, which is no record.
  When no candidate has such an address key, every address of the id map is a key of
  the address map, and the lookup returns a record exactly for the ids of the id map
  (\<open>lookup_resolves_plain\<close>).
\<close>

theorem id_entry_dangles_at_constructor:
  "fetchTokensForChain protoEnv ''eth'' = Inr protoTable
   \<and> fetchVaultTokensForChain protoEnv ''eth'' = [protoDeposit, protoEarned]
   \<and> id' protoEarned = ''LP'' \<and> address protoEarned = ''constructor''
   \<and> byId protoTable ''LP'' = Some ''constructor''
   \<and> byAddress protoTable ''constructor'' = None
   \<and> getTokenById [''eth'' \<mapsto> protoTable] ''LP'' ''eth'' = Inr Inherited"
  by (simp add: proto_ok proto_vault)
    (simp add: protoTable_def protoEarned_def getTokenById_unfold jsGet_def
      objectPrototypeKeys_def example_addresses toLowerCase_def toLowerChar_def)

lemma lookup_resolves_plain:
  assumes "fetchTokensForChain env c = Inr ct" and "plainKeys (candidates env c)"
  shows "(\<forall>i a. byId ct i = Some a \<longrightarrow> (\<exists>e. byAddress ct a = Some e))
       \<and> (getAddress env [] = None \<longrightarrow> reg c = Some ct \<longrightarrow>
            (\<forall>i. (\<exists>e. getTokenById reg i c = Inr (Own e)) \<longleftrightarrow> i \<in> dom (byId ct)))"
proof -
  have key: "\<exists>t \<in> set (candidates env c). a = addressKey t" if "byId ct i = Some a" for i a
  proof -
    have "map_option addressKey (find (\<lambda>t. id' t = i) (candidates env c)) = Some a"
      using fetch_byId[OF assms(1), of i] that by (simp split: if_splits)
    then obtain t where "find (\<lambda>t. id' t = i) (candidates env c) = Some t" "a = addressKey t"
      by (auto simp: map_option_eq_Some)
    with find_Some_mem[of "\<lambda>t. id' t = i" "candidates env c" t] show ?thesis by blast
  qed
  have p1: "\<forall>i a. byId ct i = Some a \<longrightarrow> (\<exists>e. byAddress ct a = Some e)"
  proof (intro allI impI)
    fix i a assume "byId ct i = Some a"
    from key[OF this] obtain t where t: "t \<in> set (candidates env c)" "a = addressKey t" by blast
    with assms(2) have "a \<notin> set objectPrototypeKeys" by (simp add: plainKeys_def)
    with t have "a \<in> dom (byAddress ct)" using fetch_dom[OF assms(1)] by auto
    then show "\<exists>e. byAddress ct a = Some e" by auto
  qed
  have p2: "(\<exists>e. getTokenById reg i c = Inr (Own e)) \<longleftrightarrow> i \<in> dom (byId ct)"
    if g: "getAddress env [] = None" and r: "reg c = Some ct" for i
  proof
    assume "\<exists>e. getTokenById reg i c = Inr (Own e)"
    then show "i \<in> dom (byId ct)"
      using r by (auto simp: getTokenById_unfold split: option.splits if_splits)
  next
    assume "i \<in> dom (byId ct)"
    then obtain a where a: "byId ct i = Some a" by auto
    from key[OF a] obtain t where t: "t \<in> set (candidates env c)" "a = addressKey t" by blast
    from fetch_Inr_D(1)[OF assms(1)] obtain ct1
      where f: "forEach (addToken env) (candidates env c) emptyTokens = Inr ct1" by blast
    have "\<forall>u \<in> set (candidates env c). type' u = Native \<longrightarrow> address u \<noteq> []"
      using candidates_nativeAtSentinel[of env c] by (auto simp: nativeAtSentinel_def)
    from forEach_addToken_nonempty[OF f g _ this] have "\<forall>u \<in> set (candidates env c). address u \<noteq> []"
      by (simp add: emptyTokens_def)
    with t have ne: "a \<noteq> []" by (simp add: addressKey_def toLowerCase_def)
    from p1 a obtain e where "byAddress ct a = Some e" by blast
    with a ne r t(2) show "\<exists>e. getTokenById reg i c = Inr (Own e)"
      by (simp add: getTokenById_unfold addressKey_idem jsGet_def)
  qed
  from p2 have "getAddress env [] = None \<longrightarrow> reg c = Some ct \<longrightarrow>
            (\<forall>i. (\<exists>e. getTokenById reg i c = Inr (Own e)) \<longleftrightarrow> i \<in> dom (byId ct))"
    by (intro impI allI)
  with p1 show ?thesis by (rule conjI)
qed

end
